theory Spec2Isabelle
  imports Complex_Main "HOL-Library.Char_ord" "HOL-Library.List_Lexorder" "HOL-Library.Log_Nat"
begin

section \<open>Strings and numbers of the platform\<close>

text \<open>
  Strings are lists of characters (code units below 256). \<open>splitJS\<close> is
  \<^verbatim>\<open>String.prototype.split\<close> with a one-character separator: it always returns at least one
  part, and an empty string gives one empty part.
\<close>

fun splitJS :: "char \<Rightarrow> string \<Rightarrow> string list" where
  "splitJS sep [] = [[]]"
| "splitJS sep (c # cs) =
     (if c = sep then [] # splitJS sep cs
      else (case splitJS sep cs of [] \<Rightarrow> [[c]] | p # ps \<Rightarrow> (c # p) # ps))"

text \<open>\<open>parts[i]\<close>: an index past the end reads \<^verbatim>\<open>undefined\<close>, here \<open>None\<close>.\<close>

fun index :: "'a list \<Rightarrow> nat \<Rightarrow> 'a option" where
  "index [] i = None"
| "index (x # xs) 0 = Some x"
| "index (x # xs) (Suc i) = index xs i"

text \<open>
  \<^verbatim>\<open>Array.prototype.join\<close> on strings.
\<close>

fun joinStrings :: "string \<Rightarrow> string list \<Rightarrow> string" where
  "joinStrings sep [] = []"
| "joinStrings sep [x] = x"
| "joinStrings sep (x # y # ys) = x @ sep @ joinStrings sep (y # ys)"

text \<open>
  The result of \<^verbatim>\<open>parseInt\<close>: an integer or \<^verbatim>\<open>NaN\<close>. (A digit string too long for a
  double is rounded by the platform; the rounding changes neither whether the value is
  zero nor on which side of 1900 it lies.)
\<close>

datatype jsint = NaN | IntVal int

definition isWhiteSpace :: "char \<Rightarrow> bool" where
  "isWhiteSpace c = (of_char c \<in> {9, 10, 11, 12, 13, 32, 160 :: nat})"

definition digitVal :: "char \<Rightarrow> nat option" where
  "digitVal c =
     (let n = (of_char c :: nat) in
      if 48 \<le> n \<and> n \<le> 57 then Some (n - 48)
      else if 97 \<le> n \<and> n \<le> 122 then Some (n - 87)
      else if 65 \<le> n \<and> n \<le> 90 then Some (n - 55)
      else None)"

definition isRadixDigit :: "nat \<Rightarrow> char \<Rightarrow> bool" where
  "isRadixDigit R c = (case digitVal c of None \<Rightarrow> False | Some d \<Rightarrow> d < R)"

definition digitsValue :: "nat \<Rightarrow> string \<Rightarrow> nat" where
  "digitsValue R Z = foldl (\<lambda>acc c. acc * R + (case digitVal c of None \<Rightarrow> 0 | Some d \<Rightarrow> d)) 0 Z"

text \<open>
  \<^verbatim>\<open>parseInt(string)\<close> with no radix argument: leading white space is skipped, a sign is
  read, a prefix \<^verbatim>\<open>0x\<close> or \<^verbatim>\<open>0X\<close> selects radix 16, and the longest prefix of digits of the
  radix is the number; anything after it is ignored, and no digit at all gives \<^verbatim>\<open>NaN\<close>.
\<close>

definition parseInt :: "string \<Rightarrow> jsint" where
  "parseInt inputString =
     (let S = dropWhile isWhiteSpace inputString;
          sign = (if take 1 S = ''-'' then - 1 else 1 :: int);
          S1 = (if take 1 S = ''+'' \<or> take 1 S = ''-'' then drop 1 S else S);
          hex = (take 2 S1 = ''0x'' \<or> take 2 S1 = ''0X'');
          R = (if hex then 16 else 10);
          S2 = (if hex then drop 2 S1 else S1);
          Z = takeWhile (isRadixDigit R) S2
      in if Z = [] then NaN else IntVal (sign * int (digitsValue R Z)))"

text \<open>
  A value of type \<^verbatim>\<open>number | null\<close> used as a condition: \<^verbatim>\<open>null\<close>, \<^verbatim>\<open>NaN\<close> and \<open>0\<close> are
  falsy. \<open>truthyNum\<close> returns the number when the value is truthy.
\<close>

fun truthyNum :: "jsint option \<Rightarrow> int option" where
  "truthyNum None = None"
| "truthyNum (Some NaN) = None"
| "truthyNum (Some (IntVal n)) = (if n = 0 then None else Some n)"

section \<open>Dates\<close>

text \<open>
  A \<^verbatim>\<open>Date\<close> is its time value: milliseconds since the epoch, or \<open>None\<close> for an invalid
  date (time value \<^verbatim>\<open>NaN\<close>). The functions below are the date arithmetic of the language
  standard. Local time is taken at a constant zone offset of zero, so the time value of
  \<^verbatim>\<open>new Date(y, m, d, ...)\<close> is the wall-clock count itself.
\<close>

type_synonym date = "int option"

definition msPerDay :: int where
  "msPerDay = 86400000"

definition DayFromYear :: "int \<Rightarrow> int" where
  "DayFromYear y = 365 * (y - 1970) + (y - 1969) div 4 - (y - 1901) div 100 + (y - 1601) div 400"

definition InLeapYear :: "int \<Rightarrow> bool" where
  "InLeapYear y = (y mod 4 = 0 \<and> (y mod 400 = 0 \<or> y mod 100 \<noteq> 0))"

definition monthLengths :: "int \<Rightarrow> int list" where
  "monthLengths y = [31, if InLeapYear y then 29 else 28, 31, 30, 31, 30, 31, 31, 30, 31, 30, 31]"

definition MakeDay :: "int \<Rightarrow> int \<Rightarrow> int \<Rightarrow> int" where
  "MakeDay year month dt =
     (let ym = year + month div 12;
          mn = month mod 12
      in DayFromYear ym + sum_list (take (nat mn) (monthLengths ym)) + dt - 1)"

definition MakeTime :: "int \<Rightarrow> int \<Rightarrow> int \<Rightarrow> int \<Rightarrow> int" where
  "MakeTime hour minute sec ms = hour * 3600000 + minute * 60000 + sec * 1000 + ms"

definition MakeDate :: "int \<Rightarrow> int \<Rightarrow> int" where
  "MakeDate day time = day * msPerDay + time"

definition TimeClip :: "int \<Rightarrow> date" where
  "TimeClip t = (if \<bar>t\<bar> > 8640000000000000 then None else Some t)"

text \<open>\<^verbatim>\<open>new Date(year, monthIndex, day, hours, minutes, seconds)\<close>.\<close>

definition newDate :: "int \<Rightarrow> int \<Rightarrow> int \<Rightarrow> int \<Rightarrow> int \<Rightarrow> int \<Rightarrow> date" where
  "newDate y m dt h mi s =
     (let yr = (if 0 \<le> y \<and> y \<le> 99 then 1900 + y else y)
      in TimeClip (MakeDate (MakeDay yr m dt) (MakeTime h mi s 0)))"

text \<open>
  \<open>civil\<close> inverts the day count: the year, month index (0 to 11) and day of the month
  of a day number.
\<close>

definition civil :: "int \<Rightarrow> int \<times> int \<times> int" where
  "civil days =
     (let z = days + 719468;
          era = z div 146097;
          doe = z - era * 146097;
          yoe = (doe - doe div 1460 + doe div 36524 - doe div 146096) div 365;
          doy = doe - (365 * yoe + yoe div 4 - yoe div 100);
          mp = (5 * doy + 2) div 153;
          d = doy - (153 * mp + 2) div 5 + 1;
          m = (if mp < 10 then mp + 3 else mp - 9);
          y = yoe + era * 400 + (if m \<le> 2 then 1 else 0)
      in (y, m - 1, d))"

text \<open>\<^verbatim>\<open>Date.prototype.getDate\<close>: the day of the month, \<^verbatim>\<open>NaN\<close> for an invalid date.\<close>

definition getDate :: "date \<Rightarrow> int option" where
  "getDate t = (case t of None \<Rightarrow> None | Some tv \<Rightarrow> Some (snd (snd (civil (tv div msPerDay)))))"

text \<open>
  Relational operators on dates compare the time values; every comparison with an
  invalid date is false.
\<close>

definition date_le :: "date \<Rightarrow> date \<Rightarrow> bool" where
  "date_le a b = (case (a, b) of (Some x, Some y) \<Rightarrow> x \<le> y | _ \<Rightarrow> False)"

definition date_ge :: "date \<Rightarrow> date \<Rightarrow> bool" where
  "date_ge a b = (case (a, b) of (Some x, Some y) \<Rightarrow> x \<ge> y | _ \<Rightarrow> False)"

section \<open>HotelBookingDashboard: partial dates and the date filter\<close>

text \<open>The object \<^verbatim>\<open>{ start: Date; end: Date }\<close>.\<close>

record dateRange =
  rangeStart :: date
  rangeEnd :: date

text \<open>
  \<^verbatim>\<open>parsePartialDate\<close> (HotelBookingDashboard.tsx, lines 128 to 156). \<open>None\<close> is the
  \<^verbatim>\<open>null\<close> it returns.
\<close>

definition parsePartialDate :: "string \<Rightarrow> dateRange option" where
  "parsePartialDate dateStr =
     (if dateStr = [] then None
      else
        let parts = splitJS CHR ''-'' dateStr;
            part = (\<lambda>i. case index parts i of None \<Rightarrow> None
                         | Some p \<Rightarrow> if p = [] then None else Some (parseInt p));
            year = part 0;
            month = part 1;
            day = part 2
        in case truthyNum year of
             None \<Rightarrow> None
           | Some y \<Rightarrow>
               if y < 1900 then None
               else
                 (case (truthyNum day, truthyNum month) of
                    (Some d, Some m) \<Rightarrow>
                      (let date = newDate y (m - 1) d 0 0 0
                       in Some \<lparr>rangeStart = date, rangeEnd = date\<rparr>)
                  | (None, Some m) \<Rightarrow>
                      (let lastDay = getDate (newDate y m 0 0 0 0)
                       in Some \<lparr>rangeStart = newDate y (m - 1) 1 0 0 0,
                                rangeEnd = (case lastDay of None \<Rightarrow> None
                                            | Some l \<Rightarrow> newDate y (m - 1) l 23 59 59)\<rparr>)
                  | (_, None) \<Rightarrow>
                      Some \<lparr>rangeStart = newDate y 0 1 0 0 0,
                            rangeEnd = newDate y 11 31 23 59 59\<rparr>))"

text \<open>\<^verbatim>\<open>rangesOverlap\<close> (lines 159 to 164).\<close>

definition rangesOverlap :: "dateRange \<Rightarrow> dateRange \<Rightarrow> bool" where
  "rangesOverlap range1 range2 =
     (date_le (rangeStart range1) (rangeEnd range2) \<and> date_ge (rangeEnd range1) (rangeStart range2))"

text \<open>
  The date part of the filter predicate (lines 189 to 212), for the two filter texts and
  the availability range of the hotel. A text is supplied when it is not empty. The
  result is whether the hotel passes this part of the filter.
\<close>

definition dateFilter :: "string \<Rightarrow> string \<Rightarrow> dateRange \<Rightarrow> bool" where
  "dateFilter checkIn checkOut hotelRange =
     (if checkIn \<noteq> [] then
        (case parsePartialDate checkIn of
           None \<Rightarrow> False
         | Some checkInRange \<Rightarrow>
             if checkOut \<noteq> [] then
               (case parsePartialDate checkOut of
                  None \<Rightarrow> False
                | Some checkOutRange \<Rightarrow>
                    if date_ge (rangeStart checkInRange) (rangeEnd checkOutRange) then False
                    else
                      (let requestedRange = \<lparr>rangeStart = rangeStart checkInRange,
                                             rangeEnd = rangeEnd checkOutRange\<rparr>
                       in if \<not> rangesOverlap requestedRange hotelRange then False else True))
             else if \<not> rangesOverlap checkInRange hotelRange then False else True)
      else if checkOut \<noteq> [] then
        (case parsePartialDate checkOut of
           None \<Rightarrow> False
         | Some checkOutRange \<Rightarrow> if \<not> rangesOverlap checkOutRange hotelRange then False else True)
      else True)"

section \<open>HotelBookingDashboard: sorting and pagination\<close>

text \<open>The type \<^verbatim>\<open>Hotel\<close> and the keys of it that a sort can name.\<close>

record availabilityRange =
  checkIn :: string
  checkOut :: string

record Hotel =
  hotelId :: int
  name :: string
  city :: string
  price :: rat
  rating :: rat
  amenities :: "string list"
  availability :: availabilityRange

datatype hotelField = FId | FName | FCity | FPrice | FRating | FAmenities | FAvailability

datatype sortOrder = Asc | Desc

record secondarySort =
  secondaryField :: hotelField
  secondaryOrder :: sortOrder

record SortConfig =
  sortField :: hotelField
  sortOrder :: sortOrder
  secondary :: "secondarySort option"

text \<open>
  \<^verbatim>\<open>a[field] > b[field]\<close> and \<^verbatim>\<open>a[field] < b[field]\<close>. Numbers compare by value and strings
  by their code units, the first difference deciding. An array is compared through its
  string (the elements joined by commas) and an object through the string
  \<^verbatim>\<open>[object Object]\<close>.
\<close>

fun greaterField :: "hotelField \<Rightarrow> Hotel \<Rightarrow> Hotel \<Rightarrow> bool" where
  "greaterField FId a b = (hotelId a > hotelId b)"
| "greaterField FName a b = (name a > name b)"
| "greaterField FCity a b = (city a > city b)"
| "greaterField FPrice a b = (price a > price b)"
| "greaterField FRating a b = (rating a > rating b)"
| "greaterField FAmenities a b =
     (joinStrings '','' (amenities a) > joinStrings '','' (amenities b))"
| "greaterField FAvailability a b = (''[object Object]'' > ''[object Object]'')"

definition lessField :: "hotelField \<Rightarrow> Hotel \<Rightarrow> Hotel \<Rightarrow> bool" where
  "lessField f a b = greaterField f b a"

text \<open>The comparator handed to \<^verbatim>\<open>results.sort\<close> (lines 218 to 228).\<close>

definition sortCompare :: "SortConfig \<Rightarrow> Hotel \<Rightarrow> Hotel \<Rightarrow> int" where
  "sortCompare cfg a b =
     (let primaryCompare =
            (if sortOrder cfg = Asc
             then (if greaterField (sortField cfg) a b then 1 else - 1)
             else (if lessField (sortField cfg) a b then 1 else - 1))
      in case secondary cfg of
           None \<Rightarrow> primaryCompare
         | Some sec \<Rightarrow>
             if primaryCompare \<noteq> 0 then primaryCompare
             else if secondaryOrder sec = Asc
             then (if greaterField (secondaryField sec) a b then 1 else - 1)
             else (if lessField (secondaryField sec) a b then 1 else - 1))"

text \<open>The constant list \<^verbatim>\<open>HOTELS\<close> of the component.\<close>

definition HOTELS :: "Hotel list" where
  "HOTELS =
     [\<lparr>hotelId = 1, name = ''Agoda Palace'', city = ''Bangkok'', price = 120, rating = 45 / 10,
        amenities = [''WiFi'', ''Pool'', ''Gym''],
        availability = \<lparr>checkIn = ''2025-01-15'', checkOut = ''2025-01-20''\<rparr>\<rparr>,
      \<lparr>hotelId = 2, name = ''Seaside View'', city = ''Phuket'', price = 80, rating = 42 / 10,
        amenities = [''WiFi'', ''Beach''],
        availability = \<lparr>checkIn = ''2025-01-10'', checkOut = ''2025-01-25''\<rparr>\<rparr>,
      \<lparr>hotelId = 3, name = ''Mountain Stay'', city = ''Chiang Mai'', price = 100, rating = 48 / 10,
        amenities = [''WiFi'', ''Gym'', ''Spa''],
        availability = \<lparr>checkIn = ''2025-01-05'', checkOut = ''2025-01-30''\<rparr>\<rparr>,
      \<lparr>hotelId = 4, name = ''Urban Loft'', city = ''Bangkok'', price = 150, rating = 46 / 10,
        amenities = [''WiFi'', ''Pool''],
        availability = \<lparr>checkIn = ''2025-01-12'', checkOut = ''2025-01-18''\<rparr>\<rparr>,
      \<lparr>hotelId = 5, name = ''Tropical Resort'', city = ''Phuket'', price = 200, rating = 49 / 10,
        amenities = [''WiFi'', ''Pool'', ''Beach'', ''Spa''],
        availability = \<lparr>checkIn = ''2025-01-08'', checkOut = ''2025-01-22''\<rparr>\<rparr>]"

text \<open>
  \<^verbatim>\<open>Array.prototype.slice(start, end)\<close> on integers: a negative index counts from the end
  of the array, and both indices are clamped to the array.
\<close>

definition sliceJS :: "'a list \<Rightarrow> int \<Rightarrow> int \<Rightarrow> 'a list" where
  "sliceJS xs start fin =
     (let len = int (length xs);
          k = (if start < 0 then max (len + start) 0 else min start len);
          final = (if fin < 0 then max (len + fin) 0 else min fin len)
      in take (nat (final - k)) (drop (nat k) xs))"

text \<open>
  Pagination (lines 234 to 239). The component fixes the page size to \<open>itemsPerPage\<close>;
  the two functions take it as their first argument.
\<close>

definition itemsPerPage :: int where
  "itemsPerPage = 10"

definition totalPages :: "int \<Rightarrow> 'a list \<Rightarrow> int" where
  "totalPages perPage filteredHotels = \<lceil>(of_nat (length filteredHotels) :: rat) / of_int perPage\<rceil>"

definition paginatedHotels :: "int \<Rightarrow> 'a list \<Rightarrow> int \<Rightarrow> 'a list" where
  "paginatedHotels perPage filteredHotels currentPage =
     sliceJS filteredHotels ((currentPage - 1) * perPage) (currentPage * perPage)"

section \<open>Numbers\<close>

text \<open>
  A number is an IEEE 754 double: not-a-number, an infinity, negative zero, or a finite
  value, given by the rational it stands for (\<open>Finite 0\<close> is positive zero). Arithmetic
  rounds its exact result to the nearest double, a tie going to the even significand.
\<close>

datatype double = DNaN | PosInf | NegInf | NegZero | Finite rat

text \<open>\<open>floorLog2 q\<close> is the integer \<open>k\<close> with \<open>2^k \<le> q < 2^(k + 1)\<close>, for a positive \<open>q\<close>.\<close>

definition floorLog2 :: "rat \<Rightarrow> int" where
  "floorLog2 q =
     (case quotient_of q of (p, d) \<Rightarrow>
        (let k = bitlen p - bitlen d in if 2 powi k \<le> q then k else k - 1))"

text \<open>The nearest integer, a tie going to the even one.\<close>

definition roundHalfEven :: "rat \<Rightarrow> int" where
  "roundHalfEven r =
     (let n = \<lfloor>r\<rfloor>; d = r - of_int n
      in if d < 1 / 2 then n else if 1 / 2 < d then n + 1 else if even n then n else n + 1)"

text \<open>
  The double nearest to a rational. The significand has 53 bits, so the unit in the last
  place of \<open>q\<close> is \<open>2^e\<close> with \<open>e = floorLog2 \<bar>q\<bar> - 52\<close>, and not below \<open>2^(-1074)\<close>, the
  least positive double. The rounded significand \<open>m\<close> has \<open>bitlen m\<close> bits, so that the
  result \<open>m * 2^e\<close> is \<open>2^1024\<close> or more, and becomes an infinity, exactly when
  \<open>bitlen m + e\<close> is above 1024. A result that rounds to nothing is a zero of the sign
  of \<open>q\<close>.
\<close>

definition roundDouble :: "rat \<Rightarrow> double" where
  "roundDouble q =
     (if q = 0 then Finite 0
      else
        let e = max (floorLog2 \<bar>q\<bar> - 52) (- 1074);
            m = roundHalfEven (\<bar>q\<bar> / 2 powi e)
        in if 1024 < bitlen m + e then (if 0 < q then PosInf else NegInf)
           else if m = 0 then (if 0 < q then Finite 0 else NegZero)
           else Finite (if 0 < q then of_int m * 2 powi e else - (of_int m * 2 powi e)))"

text \<open>The operators \<^verbatim>\<open>+\<close>, unary \<^verbatim>\<open>-\<close>, binary \<^verbatim>\<open>-\<close> and \<^verbatim>\<open>/\<close> on numbers.\<close>

fun fadd :: "double \<Rightarrow> double \<Rightarrow> double" where
  "fadd DNaN y = DNaN"
| "fadd x DNaN = DNaN"
| "fadd PosInf NegInf = DNaN"
| "fadd NegInf PosInf = DNaN"
| "fadd PosInf y = PosInf"
| "fadd x PosInf = PosInf"
| "fadd NegInf y = NegInf"
| "fadd x NegInf = NegInf"
| "fadd NegZero NegZero = NegZero"
| "fadd NegZero (Finite y) = Finite y"
| "fadd (Finite x) NegZero = Finite x"
| "fadd (Finite x) (Finite y) = roundDouble (x + y)"

fun fneg :: "double \<Rightarrow> double" where
  "fneg DNaN = DNaN"
| "fneg PosInf = NegInf"
| "fneg NegInf = PosInf"
| "fneg NegZero = Finite 0"
| "fneg (Finite x) = (if x = 0 then NegZero else Finite (- x))"

definition fsub :: "double \<Rightarrow> double \<Rightarrow> double" where
  "fsub x y = fadd x (fneg y)"

fun isInfinite :: "double \<Rightarrow> bool" where
  "isInfinite PosInf = True"
| "isInfinite NegInf = True"
| "isInfinite x = False"

fun isZero :: "double \<Rightarrow> bool" where
  "isZero NegZero = True"
| "isZero (Finite x) = (x = 0)"
| "isZero x = False"

fun isNegative :: "double \<Rightarrow> bool" where
  "isNegative NegInf = True"
| "isNegative NegZero = True"
| "isNegative (Finite x) = (x < 0)"
| "isNegative x = False"

fun valueOf :: "double \<Rightarrow> rat" where
  "valueOf (Finite x) = x"
| "valueOf x = 0"

definition fdiv :: "double \<Rightarrow> double \<Rightarrow> double" where
  "fdiv x y =
     (if x = DNaN \<or> y = DNaN then DNaN
      else if isInfinite x \<and> isInfinite y then DNaN
      else if isZero x \<and> isZero y then DNaN
      else
        let negative = (isNegative x \<noteq> isNegative y)
        in if isInfinite x \<or> isZero y then (if negative then NegInf else PosInf)
           else if isInfinite y \<or> isZero x then (if negative then NegZero else Finite 0)
           else roundDouble (valueOf x / valueOf y))"

text \<open>
  The comparisons \<^verbatim>\<open><\<close> and \<^verbatim>\<open><=\<close> on numbers: false when an operand is not a number, and
  the two zeros are equal.
\<close>

fun rankOf :: "double \<Rightarrow> int" where
  "rankOf NegInf = - 1"
| "rankOf PosInf = 1"
| "rankOf x = 0"

definition numLess :: "double \<Rightarrow> double \<Rightarrow> bool" where
  "numLess x y =
     (x \<noteq> DNaN \<and> y \<noteq> DNaN
      \<and> (rankOf x < rankOf y \<or> (rankOf x = rankOf y \<and> valueOf x < valueOf y)))"

definition numLeq :: "double \<Rightarrow> double \<Rightarrow> bool" where
  "numLeq x y = (x \<noteq> DNaN \<and> y \<noteq> DNaN \<and> \<not> numLess y x)"

text \<open>
  \<^verbatim>\<open>Math.min(...values)\<close> and \<^verbatim>\<open>Math.max(...values)\<close>: not a number when one of the values is
  not a number; else the least, or greatest, value, negative zero counting as less than
  positive zero.
\<close>

definition mathMin :: "double list \<Rightarrow> double" where
  "mathMin xs =
     (if DNaN \<in> set xs then DNaN
      else foldl (\<lambda>lowest number.
                    if (number = NegZero \<and> lowest = Finite 0) \<or> numLess number lowest
                    then number else lowest) PosInf xs)"

definition mathMax :: "double list \<Rightarrow> double" where
  "mathMax xs =
     (if DNaN \<in> set xs then DNaN
      else foldl (\<lambda>highest number.
                    if (number = Finite 0 \<and> highest = NegZero) \<or> numLess highest number
                    then number else highest) NegInf xs)"

text \<open>
  \<^verbatim>\<open>Array.prototype.sort\<close> with a comparator. The number the comparator returns counts by
  its sign, and not-a-number counts as 0. The sort is stable; with a comparator that
  orders the elements consistently its result is the result of this insertion sort. (A
  comparator that is not consistent leaves the order to the engine.)
\<close>

fun signOf :: "double \<Rightarrow> int" where
  "signOf PosInf = 1"
| "signOf NegInf = - 1"
| "signOf (Finite x) = (if x < 0 then - 1 else if 0 < x then 1 else 0)"
| "signOf x = 0"

fun insertBy :: "('a \<Rightarrow> 'a \<Rightarrow> double) \<Rightarrow> 'a \<Rightarrow> 'a list \<Rightarrow> 'a list" where
  "insertBy cmp x [] = [x]"
| "insertBy cmp x (y # ys) = (if signOf (cmp x y) < 0 then x # y # ys else y # insertBy cmp x ys)"

definition sortWith :: "('a \<Rightarrow> 'a \<Rightarrow> double) \<Rightarrow> 'a list \<Rightarrow> 'a list" where
  "sortWith cmp xs = foldl (\<lambda>sorted x. insertBy cmp x sorted) [] xs"

section \<open>dataTransform: values and property access\<close>

text \<open>
  The values a record can hold. A number is a double. An object is the list of its own
  properties in creation order, the first binding of a key counting; members inherited
  from a prototype are not part of these values. The length of an array or of a string
  is below \<open>2^32\<close>, so it is a double as it stands.
\<close>

datatype jsval =
    Undefined
  | Null
  | Bool bool
  | Num double
  | Str string
  | Arr "jsval list"
  | Obj "(string \<times> jsval) list"

text \<open>
  A canonical array index: a decimal numeral without a leading zero. \<open>isArrayIndex\<close>
  adds the bound of the language, below \<open>2^32 - 1\<close>.
\<close>

definition arrayIndex :: "string \<Rightarrow> nat option" where
  "arrayIndex key =
     (if key \<noteq> [] \<and> list_all (isRadixDigit 10) key \<and> (key = ''0'' \<or> take 1 key \<noteq> ''0'')
      then Some (digitsValue 10 key) else None)"

definition isArrayIndex :: "string \<Rightarrow> bool" where
  "isArrayIndex key = (case arrayIndex key of None \<Rightarrow> False | Some n \<Rightarrow> n < 4294967295)"

text \<open>\<^verbatim>\<open>acc?.[key]\<close>: \<^verbatim>\<open>undefined\<close> on \<^verbatim>\<open>null\<close> and \<^verbatim>\<open>undefined\<close>, the own property otherwise.\<close>

fun getProp :: "jsval \<Rightarrow> string \<Rightarrow> jsval" where
  "getProp (Obj kvs) key = (case map_of kvs key of None \<Rightarrow> Undefined | Some v \<Rightarrow> v)"
| "getProp (Arr xs) key =
     (if key = ''length'' then Num (Finite (of_nat (length xs)))
      else case arrayIndex key of
             None \<Rightarrow> Undefined
           | Some i \<Rightarrow> (case index xs i of None \<Rightarrow> Undefined | Some v \<Rightarrow> v))"
| "getProp (Str s) key =
     (if key = ''length'' then Num (Finite (of_nat (length s)))
      else case arrayIndex key of
             None \<Rightarrow> Undefined
           | Some i \<Rightarrow> (case index s i of None \<Rightarrow> Undefined | Some c \<Rightarrow> Str [c]))"
| "getProp v key = Undefined"

text \<open>\<^verbatim>\<open>getNestedValue\<close> (dataTransform.js, lines 13 to 15).\<close>

definition getNestedValue :: "jsval \<Rightarrow> string \<Rightarrow> jsval" where
  "getNestedValue obj path = foldl (\<lambda>acc key. getProp acc key) obj (splitJS CHR ''.'' path)"

text \<open>
  The string of a value. The string of a number is the platform's
  \<^verbatim>\<open>Number.prototype.toString\<close>, which the model takes as the parameter \<open>numToString\<close>.
  An array is the join of its elements by commas, where \<^verbatim>\<open>undefined\<close> and \<^verbatim>\<open>null\<close> give the
  empty string.
\<close>

fun toStringJS :: "(double \<Rightarrow> string) \<Rightarrow> jsval \<Rightarrow> string" where
  "toStringJS numToString Undefined = ''undefined''"
| "toStringJS numToString Null = ''null''"
| "toStringJS numToString (Bool b) = (if b then ''true'' else ''false'')"
| "toStringJS numToString (Num n) = numToString n"
| "toStringJS numToString (Str s) = s"
| "toStringJS numToString (Arr xs) =
     joinStrings '','' (map (\<lambda>v. if v = Undefined \<or> v = Null then [] else toStringJS numToString v) xs)"
| "toStringJS numToString (Obj kvs) = ''[object Object]''"

text \<open>
  \<^verbatim>\<open>Array.prototype.join(sep)\<close> on values: an element that is \<^verbatim>\<open>undefined\<close> or \<^verbatim>\<open>null\<close> is
  written as the empty string, any other as its string.
\<close>

definition elementString :: "(double \<Rightarrow> string) \<Rightarrow> jsval \<Rightarrow> string" where
  "elementString numToString v = (if v = Undefined \<or> v = Null then [] else toStringJS numToString v)"

definition joinJS :: "(double \<Rightarrow> string) \<Rightarrow> string \<Rightarrow> jsval list \<Rightarrow> string" where
  "joinJS numToString sep xs = joinStrings sep (map (elementString numToString) xs)"

section \<open>dataTransform: grouping\<close>

text \<open>The option \<^verbatim>\<open>groupBy\<close>: one path, or an array of paths.\<close>

datatype groupBy = Single string | Composite "string list"

text \<open>\<^verbatim>\<open>Array.isArray(groupBy) ? groupBy : [groupBy]\<close>.\<close>

fun keysOf :: "groupBy \<Rightarrow> string list" where
  "keysOf (Single k) = [k]"
| "keysOf (Composite ks) = ks"

text \<open>\<^verbatim>\<open>createGroupKey\<close> (lines 18 to 21).\<close>

definition createGroupKey :: "(double \<Rightarrow> string) \<Rightarrow> groupBy \<Rightarrow> jsval \<Rightarrow> string" where
  "createGroupKey numToString groupBy item =
     joinJS numToString ''|'' (map (\<lambda>key. getNestedValue item key) (keysOf groupBy))"

text \<open>
  The errors a call can throw: an \<^verbatim>\<open>Error\<close> with its message, or the \<^verbatim>\<open>TypeError\<close> of the
  engine for calling something that is not a function.
\<close>

datatype error = Error string | TypeError

text \<open>
  The accumulator \<^verbatim>\<open>acc\<close> of the grouping is an object literal \<^verbatim>\<open>{}\<close> used as a
  dictionary from keys to arrays. Such an object inherits the members of
  \<^verbatim>\<open>Object.prototype\<close>, so \<^verbatim>\<open>acc[key]\<close> is defined and truthy for their names although no
  group was stored there.
\<close>

definition objectPrototypeKeys :: "string list" where
  "objectPrototypeKeys =
     [''constructor'', ''hasOwnProperty'', ''isPrototypeOf'', ''propertyIsEnumerable'',
      ''toLocaleString'', ''toString'', ''valueOf'', ''__proto__'', ''__defineGetter__'',
      ''__defineSetter__'', ''__lookupGetter__'', ''__lookupSetter__'']"

text \<open>
  One step of the reduction that builds \<^verbatim>\<open>groups\<close> (lines 27 to 32), and the reduction
  \<open>buildGroups\<close> itself. When \<^verbatim>\<open>acc[key]\<close> is a stored array the
  item is pushed to it. When it is undefined a new array is stored under the key. When
  it is an inherited member, no array is stored, and \<^verbatim>\<open>acc[key].push\<close> is not a function:
  the call throws.
\<close>

definition groupStep ::
  "(jsval \<Rightarrow> string) \<Rightarrow> (string \<times> jsval list) list \<Rightarrow> jsval \<Rightarrow> error + (string \<times> jsval list) list" where
  "groupStep keyOf acc item =
     (let key = keyOf item
      in case map_of acc key of
           Some groupItems \<Rightarrow> Inr (map (\<lambda>(k, v). if k = key then (k, v @ [item]) else (k, v)) acc)
         | None \<Rightarrow>
             if key \<in> set objectPrototypeKeys then Inl TypeError
             else Inr (acc @ [(key, [item])]))"

fun buildGroups ::
  "(jsval \<Rightarrow> string) \<Rightarrow> (string \<times> jsval list) list \<Rightarrow> jsval list \<Rightarrow> error + (string \<times> jsval list) list" where
  "buildGroups keyOf acc [] = Inr acc"
| "buildGroups keyOf acc (item # rest) =
     (case groupStep keyOf acc item of
        Inl e \<Rightarrow> Inl e
      | Inr acc' \<Rightarrow> buildGroups keyOf acc' rest)"

text \<open>
  \<^verbatim>\<open>Object.entries\<close>: the properties whose keys are array indices come first, in
  ascending order of the index, then the other properties in creation order.
\<close>

definition indexValue :: "string \<Rightarrow> nat" where
  "indexValue key = (case arrayIndex key of None \<Rightarrow> 0 | Some n \<Rightarrow> n)"

definition entries :: "(string \<times> 'a) list \<Rightarrow> (string \<times> 'a) list" where
  "entries obj =
     sort_key (\<lambda>kv. indexValue (fst kv)) (filter (\<lambda>kv. isArrayIndex (fst kv)) obj)
     @ filter (\<lambda>kv. \<not> isArrayIndex (fst kv)) obj"

text \<open>
  \<^verbatim>\<open>acc[key] = value\<close> on an object literal, for a value that is not an object (here a
  number, a string, \<^verbatim>\<open>null\<close> or \<^verbatim>\<open>undefined\<close>). \<open>putOwn\<close> writes the own property. The key
  \<^verbatim>\<open>__proto__\<close> is the inherited accessor of the prototype: the assignment stores no own
  property.
\<close>

fun putOwn :: "(string \<times> 'a) list \<Rightarrow> string \<Rightarrow> 'a \<Rightarrow> (string \<times> 'a) list" where
  "putOwn [] key v = [(key, v)]"
| "putOwn ((k, w) # rest) key v = (if k = key then (k, v) # rest else (k, w) # putOwn rest key v)"

definition assign :: "(string \<times> 'a) list \<Rightarrow> string \<Rightarrow> 'a \<Rightarrow> (string \<times> 'a) list" where
  "assign acc key v = (if key = ''__proto__'' then acc else putOwn acc key v)"

section \<open>dataTransform: aggregation\<close>

text \<open>
  \<^verbatim>\<open>typeof val === 'number'\<close>, with the number. Not-a-number and the infinities are of
  type number.
\<close>

fun numberOf :: "jsval \<Rightarrow> double option" where
  "numberOf (Num n) = Some n"
| "numberOf v = None"

text \<open>The array \<^verbatim>\<open>values\<close> (lines 43 to 45).\<close>

definition numericValues :: "jsval list \<Rightarrow> string \<Rightarrow> double list" where
  "numericValues groupItems field =
     List.map_filter numberOf (map (\<lambda>item. getNestedValue item field) groupItems)"

text \<open>
  The value stored in \<^verbatim>\<open>acc[field]\<close> for one entry of \<^verbatim>\<open>aggregations\<close> (lines 47 to 59):
  \<open>None\<close> is \<^verbatim>\<open>null\<close>. The test for an empty array comes before the \<^verbatim>\<open>switch\<close>.
\<close>

definition aggregate :: "jsval list \<Rightarrow> string \<Rightarrow> string \<Rightarrow> error + double option" where
  "aggregate groupItems field aggFn =
     (let values = numericValues groupItems field
      in if length values = 0 then Inr None
         else if aggFn = ''sum'' then Inr (Some (foldl (\<lambda>sum v. fadd sum v) (Finite 0) values))
         else if aggFn = ''avg''
           then Inr (Some (fdiv (foldl (\<lambda>sum v. fadd sum v) (Finite 0) values)
                                (Finite (of_nat (length values)))))
         else if aggFn = ''min'' then Inr (Some (mathMin values))
         else if aggFn = ''max'' then Inr (Some (mathMax values))
         else if aggFn = ''count'' then Inr (Some (Finite (of_nat (length values))))
         else Inl (Error (''Unknown aggregation: '' @ aggFn)))"

text \<open>The aggregation kinds that the \<^verbatim>\<open>switch\<close> knows (lines 53 to 57).\<close>

definition knownKinds :: "string set" where
  "knownKinds = {''sum'', ''avg'', ''min'', ''max'', ''count''}"

text \<open>The reduction over the entries of \<^verbatim>\<open>aggregations\<close> (lines 42 to 62).\<close>

fun aggregatesOf ::
  "jsval list \<Rightarrow> (string \<times> double option) list \<Rightarrow> (string \<times> string) list
     \<Rightarrow> error + (string \<times> double option) list" where
  "aggregatesOf groupItems acc [] = Inr acc"
| "aggregatesOf groupItems acc ((field, aggFn) # rest) =
     (case aggregate groupItems field aggFn of
        Inl e \<Rightarrow> Inl e
      | Inr v \<Rightarrow> aggregatesOf groupItems (assign acc field v) rest)"

section \<open>dataTransform: the result\<close>

text \<open>
  One element of the result (lines 64 to 69). The identity fields, which the source
  spreads into the element, are kept apart in \<open>identity\<close>.
\<close>

record groupResult =
  identity :: "(string \<times> string option) list"
  aggregates :: "(string \<times> double option) list"
  items :: "jsval list"
  count :: nat

text \<open>\<^verbatim>\<open>groupIdentity\<close> (lines 37 to 40).\<close>

definition groupIdentity :: "string list \<Rightarrow> string \<Rightarrow> (string \<times> string option) list" where
  "groupIdentity keys key =
     foldl (\<lambda>acc (k, i). assign acc (last (splitJS CHR ''.'' k)) (index (splitJS CHR ''|'' key) i))
       [] (zip keys [0 ..< length keys])"

text \<open>The callback of \<^verbatim>\<open>Object.entries(groups).map\<close> (lines 35 to 70).\<close>

definition makeGroup ::
  "groupBy \<Rightarrow> (string \<times> string) list \<Rightarrow> string \<times> jsval list \<Rightarrow> error + groupResult" where
  "makeGroup groupBy aggregations entry =
     (case entry of (key, groupItems) \<Rightarrow>
        (case aggregatesOf groupItems [] (entries aggregations) of
           Inl e \<Rightarrow> Inl e
         | Inr aggs \<Rightarrow>
             Inr \<lparr>identity = groupIdentity (keysOf groupBy) key,
                  aggregates = aggs,
                  items = groupItems,
                  count = length groupItems\<rparr>))"

text \<open>\<^verbatim>\<open>Array.prototype.map\<close> with a callback that can throw: the first error ends the call.\<close>

fun mapResult :: "('a \<Rightarrow> error + 'b) \<Rightarrow> 'a list \<Rightarrow> error + 'b list" where
  "mapResult f [] = Inr []"
| "mapResult f (x # xs) =
     (case f x of
        Inl e \<Rightarrow> Inl e
      | Inr y \<Rightarrow> (case mapResult f xs of Inl e \<Rightarrow> Inl e | Inr ys \<Rightarrow> Inr (y # ys)))"

text \<open>
  The option \<^verbatim>\<open>sortBy\<close> and the sort of the result (lines 73 to 80).
  \<^verbatim>\<open>a.aggregates[field] ?? 0\<close> reads 0 for a \<^verbatim>\<open>null\<close> aggregate and for a field without an
  aggregate. (For a field that names an inherited member and has no aggregate, the source
  reads the member in every group; the difference of two such values is not a number,
  which the sort counts as 0, as it counts the difference of the two zeros here.) The
  comparator is \<^verbatim>\<open>valA - valB\<close>, or \<^verbatim>\<open>valB - valA\<close> when the order is not \<^verbatim>\<open>asc\<close>.
\<close>

record sortBy =
  field :: string
  order :: "string option"

definition aggregateOrZero :: "string \<Rightarrow> groupResult \<Rightarrow> double" where
  "aggregateOrZero f g = (case map_of (aggregates g) f of Some (Some v) \<Rightarrow> v | _ \<Rightarrow> Finite 0)"

definition sortCompareResult :: "sortBy \<Rightarrow> groupResult \<Rightarrow> groupResult \<Rightarrow> double" where
  "sortCompareResult sb a b =
     (let valA = aggregateOrZero (field sb) a;
          valB = aggregateOrZero (field sb) b
      in if (case order sb of None \<Rightarrow> ''asc'' | Some ord \<Rightarrow> ord) = ''asc''
         then fsub valA valB else fsub valB valA)"

definition sortResult :: "sortBy option \<Rightarrow> groupResult list \<Rightarrow> groupResult list" where
  "sortResult sortBy result =
     (case sortBy of
        None \<Rightarrow> result
      | Some sb \<Rightarrow>
          if field sb = [] then result
          else sortWith (sortCompareResult sb) result)"

text \<open>The argument \<^verbatim>\<open>options\<close>. An omitted \<^verbatim>\<open>aggregations\<close> is the empty object.\<close>

record options =
  groupBy :: "groupBy option"
  aggregations :: "(string \<times> string) list option"
  sortBy :: "sortBy option"
  filterFn :: "(jsval \<Rightarrow> bool) option"

text \<open>\<^verbatim>\<open>!options?.groupBy\<close>: the option is missing or an empty string. An array is truthy.\<close>

fun groupByMissing :: "options option \<Rightarrow> bool" where
  "groupByMissing None = True"
| "groupByMissing (Some opts) =
     (case groupBy opts of None \<Rightarrow> True | Some (Single k) \<Rightarrow> k = [] | Some (Composite ks) \<Rightarrow> False)"

text \<open>
  \<^verbatim>\<open>filterFn ? arr.filter(filterFn) : arr\<close> (line 24) and the default
  \<^verbatim>\<open>aggregations = {}\<close> (line 10).
\<close>

definition filterItems :: "(jsval \<Rightarrow> bool) option \<Rightarrow> jsval list \<Rightarrow> jsval list" where
  "filterItems optFilter arr = (case optFilter of None \<Rightarrow> arr | Some f \<Rightarrow> filter f arr)"

definition aggregationsOrEmpty :: "(string \<times> string) list option \<Rightarrow> (string \<times> string) list" where
  "aggregationsOrEmpty aggs = (case aggs of None \<Rightarrow> [] | Some a \<Rightarrow> a)"

text \<open>\<^verbatim>\<open>transformData\<close> (lines 6 to 83).\<close>

definition transformData :: "(double \<Rightarrow> string) \<Rightarrow> jsval \<Rightarrow> options option \<Rightarrow> error + groupResult list" where
  "transformData numToString arr options =
     (case arr of
        Arr arrItems \<Rightarrow>
          (case options of
             None \<Rightarrow> Inl (Error ''options.groupBy is required'')
           | Some opts \<Rightarrow>
               (case groupBy opts of
                  None \<Rightarrow> Inl (Error ''options.groupBy is required'')
                | Some gb \<Rightarrow>
                    if groupByMissing options then Inl (Error ''options.groupBy is required'')
                    else
                      (let aggs = aggregationsOrEmpty (aggregations opts);
                           its = filterItems (filterFn opts) arrItems
                       in case buildGroups (createGroupKey numToString gb) [] its of
                            Inl e \<Rightarrow> Inl e
                          | Inr groups \<Rightarrow>
                              (case mapResult (makeGroup gb aggs) (entries groups) of
                                 Inl e \<Rightarrow> Inl e
                               | Inr result \<Rightarrow> Inr (sortResult (sortBy opts) result)))))
      | _ \<Rightarrow> Inl (Error ''First argument must be an array''))"

text \<open>The test data of dataTransform.js.\<close>

definition bookings :: "jsval list" where
  "bookings =
     [Obj [(''id'', Num (Finite 1)), (''category'', Str ''Hotel''),
           (''location'', Obj [(''city'', Str ''Bangkok''), (''country'', Str ''TH'')]),
           (''price'', Num (Finite 120)), (''nights'', Num (Finite 2))],
      Obj [(''id'', Num (Finite 2)), (''category'', Str ''Flight''),
           (''location'', Obj [(''city'', Str ''Tokyo''), (''country'', Str ''JP'')]),
           (''price'', Num (Finite 450)), (''passengers'', Num (Finite 1))],
      Obj [(''id'', Num (Finite 3)), (''category'', Str ''Hotel''),
           (''location'', Obj [(''city'', Str ''Bangkok''), (''country'', Str ''TH'')]),
           (''price'', Num (Finite 80)), (''nights'', Num (Finite 3))],
      Obj [(''id'', Num (Finite 4)), (''category'', Str ''Hotel''),
           (''location'', Obj [(''city'', Str ''Dubai''), (''country'', Str ''AE'')]),
           (''price'', Num (Finite 200)), (''nights'', Num (Finite 1))],
      Obj [(''id'', Num (Finite 5)), (''category'', Str ''Flight''),
           (''location'', Obj [(''city'', Str ''Bangkok''), (''country'', Str ''TH'')]),
           (''price'', Num (Finite 300)), (''passengers'', Num (Finite 2))]]"

text \<open>The options of the first three test calls of dataTransform.js.\<close>

definition test1Options :: options where
  "test1Options =
     \<lparr>groupBy = Some (Single ''category''),
      aggregations = Some [(''price'', ''sum''), (''nights'', ''avg'')],
      sortBy = Some \<lparr>field = ''price'', order = Some ''desc''\<rparr>,
      filterFn = None\<rparr>"

definition test2Options :: options where
  "test2Options =
     \<lparr>groupBy = Some (Single ''location.city''),
      aggregations = Some [(''price'', ''avg''), (''nights'', ''max'')],
      sortBy = Some \<lparr>field = ''price'', order = Some ''asc''\<rparr>,
      filterFn = None\<rparr>"

definition test3Options :: options where
  "test3Options =
     \<lparr>groupBy = Some (Composite [''category'', ''location.city'']),
      aggregations = Some [(''price'', ''min'')],
      sortBy = None,
      filterFn = None\<rparr>"

section \<open>Properties of the partial dates and the date filter\<close>

lemma splitJS_not_Nil: "splitJS sep s \<noteq> []"
  by (induction s) (auto split: list.splits)

lemma index_0_hd: "xs \<noteq> [] \<Longrightarrow> index xs 0 = Some (hd xs)"
  by (cases xs) auto

lemma parseInt_Nil: "parseInt [] = NaN"
  by (simp add: parseInt_def)

text \<open>
  Claim C2, as the code has it. \<open>parsePartialDate\<close> never raises: it is a total function.
  It returns \<^verbatim>\<open>null\<close> exactly when the text before the first dash does not start with a
  number (as \<^verbatim>\<open>parseInt\<close> reads it) or that number is below 1900; this covers the empty
  string, \<^verbatim>\<open>abc\<close> and every year before 1900. Every other input gives an interval,
  whatever follows the year.
\<close>

theorem parsePartialDate_null_iff:
  "parsePartialDate dateStr = None \<longleftrightarrow>
     (case parseInt (hd (splitJS CHR ''-'' dateStr)) of NaN \<Rightarrow> True | IntVal y \<Rightarrow> y < 1900)"
proof (cases "dateStr = []")
  case True
  then show ?thesis by (simp add: parsePartialDate_def parseInt_Nil)
next
  case False
  have i0: "index (splitJS CHR ''-'' dateStr) 0 = Some (hd (splitJS CHR ''-'' dateStr))"
    by (rule index_0_hd) (rule splitJS_not_Nil)
  show ?thesis
  proof (cases "hd (splitJS CHR ''-'' dateStr) = []")
    case True
    with False i0 show ?thesis
      by (simp add: parsePartialDate_def parseInt_Nil Let_def)
  next
    case nonempty: False
    show ?thesis
    proof (cases "parseInt (hd (splitJS CHR ''-'' dateStr))")
      case NaN
      with False i0 nonempty show ?thesis
        by (simp add: parsePartialDate_def Let_def)
    next
      case (IntVal y)
      with False i0 nonempty show ?thesis
        by (auto simp add: parsePartialDate_def Let_def split: option.splits)
    qed
  qed
qed

theorem parsePartialDate_null_iff_witness:
  "parsePartialDate ''abc'' = None \<and> parsePartialDate ''1899-12-31'' = None
   \<and> parsePartialDate ''2025-01-15'' \<noteq> None"
proof -
  have a: "(case parseInt (hd (splitJS CHR ''-'' ''abc'')) of NaN \<Rightarrow> True | IntVal y \<Rightarrow> y < 1900)"
    by code_simp
  have b: "(case parseInt (hd (splitJS CHR ''-'' ''1899-12-31'')) of NaN \<Rightarrow> True | IntVal y \<Rightarrow> y < 1900)"
    by code_simp
  have c: "\<not> (case parseInt (hd (splitJS CHR ''-'' ''2025-01-15'')) of NaN \<Rightarrow> True | IntVal y \<Rightarrow> y < 1900)"
    by code_simp
  from a b c show ?thesis
    by (simp only: parsePartialDate_null_iff simp_thms)
qed

text \<open>
  Claim C2 as stated fails: the input \<^verbatim>\<open>2025-13\<close> is none of the three shapes, and the
  result is not \<^verbatim>\<open>null\<close> but the interval of January 2026, month 13 of 2025 rolling over
  in the date constructor.
\<close>

theorem parsePartialDate_month_13:
  "parsePartialDate ''2025-13'' =
     Some \<lparr>rangeStart = newDate 2026 0 1 0 0 0, rangeEnd = newDate 2026 0 31 23 59 59\<rparr>
   \<and> parsePartialDate ''2025-13'' \<noteq> None"
  by code_simp

lemma splitJS_no_separator: "sep \<notin> set a \<Longrightarrow> splitJS sep a = [a]"
  by (induction a) auto

lemma splitJS_segment: "sep \<notin> set a \<Longrightarrow> splitJS sep (a @ sep # b) = a # splitJS sep b"
  by (induction a) auto

lemma falsy_segment:
  "s = [] \<or> parseInt s = NaN \<or> parseInt s = IntVal 0
     \<Longrightarrow> truthyNum (if s = [] then None else Some (parseInt s)) = None"
  by auto

lemma index_simps3:
  "index (a # xs) 0 = Some a" "index (a # b # xs) 1 = Some b" "index (a # b # c # xs) 2 = Some c"
  "index [a] 1 = None" "index [a] 2 = None" "index [a, b] 2 = None"
  by (simp_all add: numeral_2_eq_2)

lemma year_only_on_falsy_month:
  assumes "CHR ''-'' \<notin> set yr" and "CHR ''-'' \<notin> set mo"
    and "mo = [] \<or> parseInt mo = NaN \<or> parseInt mo = IntVal 0"
  shows "parsePartialDate (yr @ ''-'' @ mo) = parsePartialDate yr"
    and "CHR ''-'' \<notin> set dy \<Longrightarrow> parsePartialDate (yr @ ''-'' @ mo @ ''-'' @ dy) = parsePartialDate yr"
proof -
  note f = falsy_segment[OF assms(3)]
  have two: "splitJS CHR ''-'' (yr @ ''-'' @ mo) = [yr, mo]"
    using assms by (simp add: splitJS_segment splitJS_no_separator)
  have one: "splitJS CHR ''-'' yr = [yr]"
    using assms by (simp add: splitJS_no_separator)
  show "parsePartialDate (yr @ ''-'' @ mo) = parsePartialDate yr"
  proof (cases "yr = []")
    case True
    then show ?thesis using two
      by (simp add: parsePartialDate_def Let_def index_simps3)
  next
    case False
    then show ?thesis using two one f
      by (simp add: parsePartialDate_def Let_def index_simps3 split: option.splits)
  qed
  show "parsePartialDate (yr @ ''-'' @ mo @ ''-'' @ dy) = parsePartialDate yr" if "CHR ''-'' \<notin> set dy"
  proof -
    have three: "splitJS CHR ''-'' (yr @ ''-'' @ mo @ ''-'' @ dy) = [yr, mo, dy]"
      using assms that by (simp add: splitJS_segment splitJS_no_separator)
    show ?thesis
    proof (cases "yr = []")
      case True
      then show ?thesis using three
        by (simp add: parsePartialDate_def Let_def index_simps3)
    next
      case False
      then show ?thesis using three one f
        by (simp add: parsePartialDate_def Let_def index_simps3 split: option.splits)
    qed
  qed
qed

lemma month_only_on_falsy_day:
  assumes "CHR ''-'' \<notin> set yr" and "CHR ''-'' \<notin> set mo" and "CHR ''-'' \<notin> set dy"
    and "dy = [] \<or> parseInt dy = NaN \<or> parseInt dy = IntVal 0"
  shows "parsePartialDate (yr @ ''-'' @ mo @ ''-'' @ dy) = parsePartialDate (yr @ ''-'' @ mo)"
proof -
  note f = falsy_segment[OF assms(4)]
  have two: "splitJS CHR ''-'' (yr @ ''-'' @ mo) = [yr, mo]"
    using assms by (simp add: splitJS_segment splitJS_no_separator)
  have three: "splitJS CHR ''-'' (yr @ ''-'' @ mo @ ''-'' @ dy) = [yr, mo, dy]"
    using assms by (simp add: splitJS_segment splitJS_no_separator)
  show ?thesis using two three f
    by (simp add: parsePartialDate_def Let_def index_simps3 split: option.splits)
qed

text \<open>
  Claim C10: a segment that is empty or parses to 0 (or to nothing) counts as absent.
  For a year \<open>yr\<close>, a month segment \<open>mo\<close> and a day segment \<open>dy\<close>: when the month
  segment is empty or parses to 0, the result is the result for the year alone, with or
  without a day segment; when the day segment is empty or parses to 0, the result is the
  result for the year and month. For the year alone the result is the interval of the
  whole year, and for year and month the interval of the whole month, given here as time
  values for 2025 and for May 2025 (1 January 2025 0:00:00 to 31 December 2025 23:59:59,
  and 1 May 2025 0:00:00 to 31 May 2025 23:59:59).
\<close>

theorem zero_segment_counts_as_absent:
  assumes "CHR ''-'' \<notin> set yr" and "CHR ''-'' \<notin> set mo" and "CHR ''-'' \<notin> set dy"
  shows "(mo = [] \<or> parseInt mo = NaN \<or> parseInt mo = IntVal 0 \<longrightarrow>
            parsePartialDate (yr @ ''-'' @ mo) = parsePartialDate yr
            \<and> parsePartialDate (yr @ ''-'' @ mo @ ''-'' @ dy) = parsePartialDate yr)
       \<and> (dy = [] \<or> parseInt dy = NaN \<or> parseInt dy = IntVal 0 \<longrightarrow>
            parsePartialDate (yr @ ''-'' @ mo @ ''-'' @ dy) = parsePartialDate (yr @ ''-'' @ mo))
       \<and> parsePartialDate ''2025''
            = Some \<lparr>rangeStart = Some 1735689600000, rangeEnd = Some 1767225599000\<rparr>
       \<and> parsePartialDate ''2025-05''
            = Some \<lparr>rangeStart = Some 1746057600000, rangeEnd = Some 1748735999000\<rparr>"
proof -
  have "parsePartialDate ''2025''
        = Some \<lparr>rangeStart = Some 1735689600000, rangeEnd = Some 1767225599000\<rparr>"
    by code_simp
  moreover have "parsePartialDate ''2025-05''
        = Some \<lparr>rangeStart = Some 1746057600000, rangeEnd = Some 1748735999000\<rparr>"
    by code_simp
  ultimately show ?thesis
    using year_only_on_falsy_month[OF assms(1,2)] month_only_on_falsy_day[OF assms]  assms(3)
    by blast
qed

theorem zero_segment_counts_as_absent_witness:
  "parsePartialDate ''2025-00''
     = Some \<lparr>rangeStart = Some 1735689600000, rangeEnd = Some 1767225599000\<rparr>
   \<and> parsePartialDate ''2025-00-15''
     = Some \<lparr>rangeStart = Some 1735689600000, rangeEnd = Some 1767225599000\<rparr>
   \<and> parsePartialDate ''2025-''
     = Some \<lparr>rangeStart = Some 1735689600000, rangeEnd = Some 1767225599000\<rparr>
   \<and> parsePartialDate ''2025-05-00''
     = Some \<lparr>rangeStart = Some 1746057600000, rangeEnd = Some 1748735999000\<rparr>"
proof -
  have d: "CHR ''-'' \<notin> set ''2025''" "CHR ''-'' \<notin> set ''00''" "CHR ''-'' \<notin> set ''15''"
    "CHR ''-'' \<notin> set ''''" "CHR ''-'' \<notin> set ''05''"
    by simp_all
  have z: "parseInt ''00'' = IntVal 0" by code_simp
  have a: "''2025-00'' = ''2025'' @ ''-'' @ ''00''"
    "''2025-00-15'' = ''2025'' @ ''-'' @ ''00'' @ ''-'' @ ''15''"
    "''2025-'' = ''2025'' @ ''-'' @ ''''"
    "''2025-05-00'' = ''2025'' @ ''-'' @ ''05'' @ ''-'' @ ''00''"
    "''2025-05'' = ''2025'' @ ''-'' @ ''05''"
    by simp_all
  from zero_segment_counts_as_absent[OF d(1) d(2) d(3)] z
  have 1: "parsePartialDate ''2025-00''
      = Some \<lparr>rangeStart = Some 1735689600000, rangeEnd = Some 1767225599000\<rparr>"
    and 2: "parsePartialDate ''2025-00-15''
      = Some \<lparr>rangeStart = Some 1735689600000, rangeEnd = Some 1767225599000\<rparr>"
    unfolding a by simp_all
  from zero_segment_counts_as_absent[OF d(1) d(4) d(4)]
  have 3: "parsePartialDate ''2025-''
      = Some \<lparr>rangeStart = Some 1735689600000, rangeEnd = Some 1767225599000\<rparr>"
    unfolding a by simp
  from zero_segment_counts_as_absent[OF d(1) d(5) d(2)] z
  have 4: "parsePartialDate ''2025-05-00''
      = Some \<lparr>rangeStart = Some 1746057600000, rangeEnd = Some 1748735999000\<rparr>"
    unfolding a by simp
  from 1 2 3 4 show ?thesis by blast
qed

lemma dateFilter_both_parsed:
  assumes "inText \<noteq> []" and "outText \<noteq> []"
    and "parsePartialDate inText = Some checkInRange"
    and "parsePartialDate outText = Some checkOutRange"
  shows "dateFilter inText outText \<lparr>rangeStart = hs, rangeEnd = he\<rparr> =
     (\<exists>s e a b. rangeStart checkInRange = Some s \<and> rangeEnd checkOutRange = Some e
        \<and> hs = Some a \<and> he = Some b \<and> s < e \<and> s \<le> b \<and> a \<le> e)"
  using assms
  by (cases "rangeStart checkInRange"; cases "rangeEnd checkOutRange"; cases hs; cases he)
     (auto simp: dateFilter_def rangesOverlap_def date_le_def date_ge_def Let_def)

text \<open>
  Claim C8: when both filter texts are supplied, a hotel passes the date part of the
  filter if and only if both texts parse, the start \<open>s\<close> of the check-in interval and the
  end \<open>e\<close> of the check-out interval are valid dates with \<open>s\<close> strictly before \<open>e\<close>, and
  the interval from \<open>s\<close> to \<open>e\<close> overlaps the availability from \<open>a\<close> to \<open>b\<close> of the hotel:
  \<open>s\<close> is not after \<open>b\<close> and \<open>e\<close> is not before \<open>a\<close>. The filter is a total function into
  the truth values: a failed condition excludes the hotel and raises nothing.
\<close>

theorem dateFilter_both_supplied:
  assumes "inText \<noteq> []" and "outText \<noteq> []"
  shows "dateFilter inText outText \<lparr>rangeStart = hs, rangeEnd = he\<rparr> =
     (\<exists>checkInRange checkOutRange s e a b.
        parsePartialDate inText = Some checkInRange
        \<and> parsePartialDate outText = Some checkOutRange
        \<and> rangeStart checkInRange = Some s \<and> rangeEnd checkOutRange = Some e
        \<and> hs = Some a \<and> he = Some b
        \<and> s < e \<and> s \<le> b \<and> a \<le> e)"
proof (cases "parsePartialDate inText")
  case None
  with assms show ?thesis by (simp add: dateFilter_def)
next
  case ci: (Some checkInRange)
  show ?thesis
  proof (cases "parsePartialDate outText")
    case None
    with assms ci show ?thesis by (simp add: dateFilter_def)
  next
    case co: (Some checkOutRange)
    from dateFilter_both_parsed[OF assms ci co, of hs he] ci co show ?thesis by simp
  qed
qed

theorem dateFilter_both_supplied_witness:
  "dateFilter ''2025-01-16'' ''2025-01-18''
     \<lparr>rangeStart = Some 1736899200000, rangeEnd = Some 1737331200000\<rparr>
   \<and> \<not> dateFilter ''2030-01-01'' ''2030-12-31''
     \<lparr>rangeStart = Some 1736899200000, rangeEnd = Some 1737331200000\<rparr>
   \<and> \<not> dateFilter ''2025-01-18'' ''2025-01-16''
     \<lparr>rangeStart = Some 1736899200000, rangeEnd = Some 1737331200000\<rparr>
   \<and> \<not> dateFilter ''2025-01-16'' ''soon''
     \<lparr>rangeStart = Some 1736899200000, rangeEnd = Some 1737331200000\<rparr>"
proof -
  have n: "''2025-01-16'' \<noteq> []" "''2025-01-18'' \<noteq> []" "''2030-01-01'' \<noteq> []"
    "''2030-12-31'' \<noteq> []" "''soon'' \<noteq> []"
    by simp_all
  have p: "parsePartialDate ''2025-01-16''
        = Some \<lparr>rangeStart = Some 1736985600000, rangeEnd = Some 1736985600000\<rparr>"
    "parsePartialDate ''2025-01-18''
        = Some \<lparr>rangeStart = Some 1737158400000, rangeEnd = Some 1737158400000\<rparr>"
    "parsePartialDate ''2030-01-01''
        = Some \<lparr>rangeStart = Some 1893456000000, rangeEnd = Some 1893456000000\<rparr>"
    "parsePartialDate ''2030-12-31''
        = Some \<lparr>rangeStart = Some 1924905600000, rangeEnd = Some 1924905600000\<rparr>"
    "parsePartialDate ''soon'' = None"
    by code_simp+
  show ?thesis
    unfolding dateFilter_both_supplied[OF n(1) n(2)] dateFilter_both_supplied[OF n(3) n(4)]
      dateFilter_both_supplied[OF n(2) n(1)] dateFilter_both_supplied[OF n(1) n(5)] p
    by simp
qed

section \<open>Properties of the sort comparator and of pagination\<close>

text \<open>
  Claim C1 at the comparator. Each branch of the primary comparison yields 1 or -1 and
  never 0, so the test \<^verbatim>\<open>primaryCompare !== 0\<close> always holds: the comparator of a
  configuration with a secondary sort is the comparator of the same configuration
  without it. On the two hotels in Bangkok, which tie on the city, it answers -1 in
  both directions where the secondary key (the price, descending) should decide.
\<close>

theorem sortCompare_ignores_secondary:
  "sortCompare cfg a b \<noteq> 0
   \<and> sortCompare cfg a b = sortCompare (cfg\<lparr>secondary := None\<rparr>) a b
   \<and> sortCompare \<lparr>sortField = FCity, sortOrder = Asc,
        secondary = Some \<lparr>secondaryField = FPrice, secondaryOrder = Desc\<rparr>\<rparr> (HOTELS ! 0) (HOTELS ! 3) = - 1
   \<and> sortCompare \<lparr>sortField = FCity, sortOrder = Asc,
        secondary = Some \<lparr>secondaryField = FPrice, secondaryOrder = Desc\<rparr>\<rparr> (HOTELS ! 3) (HOTELS ! 0) = - 1"
proof -
  have "sortCompare cfg a b \<noteq> 0 \<and> sortCompare cfg a b = sortCompare (cfg\<lparr>secondary := None\<rparr>) a b"
    by (simp add: sortCompare_def Let_def split: option.splits)
  moreover have "sortCompare \<lparr>sortField = FCity, sortOrder = Asc,
        secondary = Some \<lparr>secondaryField = FPrice, secondaryOrder = Desc\<rparr>\<rparr> (HOTELS ! 0) (HOTELS ! 3) = - 1"
    by code_simp
  moreover have "sortCompare \<lparr>sortField = FCity, sortOrder = Asc,
        secondary = Some \<lparr>secondaryField = FPrice, secondaryOrder = Desc\<rparr>\<rparr> (HOTELS ! 3) (HOTELS ! 0) = - 1"
    by code_simp
  ultimately show ?thesis by simp
qed

lemma totalPages_div:
  assumes "0 < perPage"
  shows "totalPages perPage xs = (int (length xs) + perPage - 1) div perPage"
proof -
  let ?n = "int (length xs)"
  let ?q = "(?n + perPage - 1) div perPage"
  have r: "(of_nat (length xs) :: rat) / of_int perPage = of_int ?n / of_int perPage" by simp
  have pos: "(0::rat) < of_int perPage" using assms by simp
  have up: "?n \<le> ?q * perPage"
  proof -
    have "(?n + perPage - 1) mod perPage < perPage" using assms by simp
    moreover have "?q * perPage = (?n + perPage - 1) - (?n + perPage - 1) mod perPage"
      by (simp add: minus_mod_eq_div_mult)
    ultimately show ?thesis by linarith
  qed
  have lo: "(?q - 1) * perPage < ?n"
  proof -
    have "0 \<le> (?n + perPage - 1) mod perPage" using assms by simp
    moreover have "?q * perPage = (?n + perPage - 1) - (?n + perPage - 1) mod perPage"
      by (simp add: minus_mod_eq_div_mult)
    ultimately have "?q * perPage \<le> ?n + perPage - 1" by linarith
    then show ?thesis by (simp add: algebra_simps)
  qed
  have "\<lceil>(of_int ?n :: rat) / of_int perPage\<rceil> = ?q"
  proof (rule ceiling_unique)
    have "(of_int ((?q - 1) * perPage) :: rat) < of_int ?n" using lo by (simp only: of_int_less_iff)
    then have "(of_int ?q - 1) * (of_int perPage :: rat) < of_int ?n" by simp
    then show "(of_int ?q :: rat) - 1 < of_int ?n / of_int perPage"
      using pos by (simp add: pos_less_divide_eq)
    have "(of_int ?n :: rat) \<le> of_int (?q * perPage)" using up by (simp only: of_int_le_iff)
    then have "(of_int ?n :: rat) \<le> of_int ?q * of_int perPage" by simp
    then show "(of_int ?n :: rat) / of_int perPage \<le> of_int ?q"
      using pos by (simp add: pos_divide_le_eq)
  qed
  then show ?thesis unfolding totalPages_def r .
qed

lemma totalPages_covers:
  assumes "0 < perPage"
  shows "int (length xs) \<le> totalPages perPage xs * perPage"
proof -
  let ?n = "int (length xs)"
  have "(?n + perPage - 1) mod perPage < perPage" using assms by simp
  moreover have "((?n + perPage - 1) div perPage) * perPage
      = (?n + perPage - 1) - (?n + perPage - 1) mod perPage"
    by (simp add: minus_mod_eq_div_mult)
  ultimately show ?thesis unfolding totalPages_div[OF assms] by linarith
qed

lemma totalPages_Nil: "0 < perPage \<Longrightarrow> totalPages perPage [] = 0"
  by (simp add: totalPages_def)

lemma page_in_front:
  assumes "0 < perPage" and "1 \<le> currentPage"
  shows "paginatedHotels perPage xs currentPage
     = take (nat perPage) (drop (nat ((currentPage - 1) * perPage)) xs)"
proof -
  let ?len = "int (length xs)"
  let ?start = "(currentPage - 1) * perPage"
  have s0: "0 \<le> ?start" using assms by simp
  have f0: "0 \<le> currentPage * perPage" using assms by simp
  have fin: "currentPage * perPage = ?start + perPage" by (simp add: algebra_simps)
  show ?thesis
  proof (cases "?start \<le> ?len")
    case True
    have "take (nat (min (currentPage * perPage) ?len - ?start)) (drop (nat ?start) xs)
        = take (nat perPage) (drop (nat ?start) xs)"
    proof (cases "currentPage * perPage \<le> ?len")
      case True
      then show ?thesis using fin by simp
    next
      case False
      then have "length (drop (nat ?start) xs) \<le> nat (min (currentPage * perPage) ?len - ?start)"
        using s0 True by simp
      moreover have "length (drop (nat ?start) xs) \<le> nat perPage"
        using False fin s0 by simp
      ultimately show ?thesis by simp
    qed
    then show ?thesis
      using s0 f0 True unfolding paginatedHotels_def sliceJS_def Let_def
      by (simp add: min_def not_less)
  next
    case False
    then show ?thesis
      using s0 f0 unfolding paginatedHotels_def sliceJS_def Let_def
      by (simp add: min_def)
  qed
qed

lemma negative_page_of_short_list:
  assumes "0 < perPage" and "currentPage < 0" and "int (length xs) \<le> perPage"
  shows "paginatedHotels perPage xs currentPage = []"
proof -
  from assms(2) have "currentPage \<le> - 1" by simp
  with assms(1) have "currentPage * perPage \<le> - 1 * perPage"
    by (intro mult_right_mono) simp_all
  with assms have fin: "currentPage * perPage < 0" and sum: "int (length xs) + currentPage * perPage \<le> 0"
    by simp_all
  from assms have start: "(currentPage - 1) * perPage < 0"
    by (simp add: mult_less_0_iff)
  show ?thesis
    using fin sum start unfolding paginatedHotels_def sliceJS_def Let_def
    by (simp add: max_def)
qed

lemma page_past_the_last:
  assumes "0 < perPage" and "0 \<le> currentPage"
    and "currentPage < 1 \<or> totalPages perPage xs < currentPage"
  shows "paginatedHotels perPage xs currentPage = []"
proof (cases "currentPage = 0")
  case True
  then show ?thesis using assms(1)
    by (simp add: paginatedHotels_def sliceJS_def Let_def)
next
  case False
  with assms have one: "1 \<le> currentPage" and past: "totalPages perPage xs < currentPage"
    by auto
  from past have "totalPages perPage xs \<le> currentPage - 1" by simp
  then have "totalPages perPage xs * perPage \<le> (currentPage - 1) * perPage"
    using assms(1) by (simp add: mult_right_mono)
  with totalPages_covers[OF assms(1), of xs]
  have "int (length xs) \<le> (currentPage - 1) * perPage" by linarith
  then have "drop (nat ((currentPage - 1) * perPage)) xs = []" by simp
  then show ?thesis by (simp add: page_in_front[OF assms(1) one])
qed

text \<open>
  Claim C9. Pages are numbered from 1: page \<open>n\<close> holds the records after the first
  \<open>(n - 1) * perPage\<close>, at most \<open>perPage\<close> of them. For a positive page size, a page number
  out of range (below 1, or above the number of pages) gives the empty slice, and
  nothing is raised, whenever the page number is not negative or the list has at most
  \<open>perPage\<close> records. The lists of the component are filtered from \<open>HOTELS\<close> and are no
  longer than it, and the page size is \<open>itemsPerPage\<close>: on them every out-of-range page
  number, negative ones included, gives the empty slice. The number of pages is the
  ceiling of the quotient, and 0 for the empty list.
\<close>

theorem pagination_out_of_range:
  assumes "0 < perPage"
  shows "(currentPage < 1 \<or> totalPages perPage xs < currentPage \<longrightarrow>
            0 \<le> currentPage \<or> int (length xs) \<le> perPage \<longrightarrow>
            paginatedHotels perPage (xs :: 'a list) currentPage = [])
         \<and> (1 \<le> currentPage \<longrightarrow>
               paginatedHotels perPage xs currentPage
                 = take (nat perPage) (drop (nat ((currentPage - 1) * perPage)) xs))
         \<and> totalPages perPage xs = \<lceil>(of_nat (length xs) :: rat) / of_int perPage\<rceil>
         \<and> totalPages perPage xs = (int (length xs) + perPage - 1) div perPage
         \<and> totalPages perPage ([] :: 'a list) = 0
         \<and> (length (filteredHotels :: Hotel list) \<le> length HOTELS \<longrightarrow>
               page < 1 \<or> totalPages itemsPerPage filteredHotels < page \<longrightarrow>
               paginatedHotels itemsPerPage filteredHotels page = [])"
proof -
  have a: "paginatedHotels perPage xs currentPage = []"
    if "currentPage < 1 \<or> totalPages perPage xs < currentPage"
      and "0 \<le> currentPage \<or> int (length xs) \<le> perPage"
  proof (cases "0 \<le> currentPage")
    case True
    from page_past_the_last[OF assms True that(1)] show ?thesis .
  next
    case False
    with that(2) negative_page_of_short_list[OF assms, of currentPage xs] show ?thesis by simp
  qed
  have b: "paginatedHotels itemsPerPage filteredHotels page = []"
    if "length filteredHotels \<le> length HOTELS"
      and "page < 1 \<or> totalPages itemsPerPage filteredHotels < page"
    for filteredHotels :: "Hotel list" and page
  proof -
    have p: "0 < itemsPerPage" by (simp add: itemsPerPage_def)
    from that(1) have short: "int (length filteredHotels) \<le> itemsPerPage"
      by (simp add: itemsPerPage_def HOTELS_def)
    show ?thesis
    proof (cases "0 \<le> page")
      case True
      from page_past_the_last[OF p True that(2)] show ?thesis .
    next
      case False
      with negative_page_of_short_list[OF p _ short, of page] show ?thesis by simp
    qed
  qed
  from a b page_in_front[OF assms, of currentPage xs] totalPages_div[OF assms, of xs]
    totalPages_Nil[OF assms]
  show ?thesis by (simp add: totalPages_def)
qed

theorem pagination_out_of_range_witness:
  "paginatedHotels itemsPerPage HOTELS 2 = []
   \<and> paginatedHotels itemsPerPage HOTELS 0 = []
   \<and> paginatedHotels itemsPerPage HOTELS (- 1) = []
   \<and> paginatedHotels itemsPerPage HOTELS 1 = HOTELS
   \<and> totalPages itemsPerPage HOTELS = 1
   \<and> totalPages itemsPerPage (filter (\<lambda>h. price h > 1000) HOTELS) = 0
   \<and> paginatedHotels itemsPerPage (filter (\<lambda>h. price h > 1000) HOTELS) 1 = []"
proof -
  have p: "0 < itemsPerPage" by (simp add: itemsPerPage_def)
  note t = pagination_out_of_range[OF p]
  have tp: "totalPages itemsPerPage HOTELS = 1" by code_simp
  have e: "filter (\<lambda>h. price h > 1000) HOTELS = []" by code_simp
  have l: "length HOTELS \<le> length HOTELS" "length ([] :: Hotel list) \<le> length HOTELS" by simp_all
  have 1: "paginatedHotels itemsPerPage HOTELS 2 = []"
    using t[of 2 HOTELS] tp by simp
  have 2: "paginatedHotels itemsPerPage HOTELS 0 = []"
    using t[of 0 HOTELS] by simp
  have 3: "paginatedHotels itemsPerPage HOTELS (- 1) = []"
    using t[of 0 HOTELS HOTELS "- 1"] l by simp
  have 4: "paginatedHotels itemsPerPage HOTELS 1 = HOTELS"
    using t[of 1 HOTELS] by (simp add: itemsPerPage_def HOTELS_def)
  have 5: "totalPages itemsPerPage ([] :: Hotel list) = 0"
    using t[of 0 "[] :: Hotel list"] by simp
  have 6: "paginatedHotels itemsPerPage ([] :: Hotel list) 1 = []"
    using t[of 1 "[] :: Hotel list"] 5 by simp
  from 1 2 3 4 tp 5 6 show ?thesis unfolding e by blast
qed

section \<open>Properties of dataTransform\<close>

subsection \<open>The reduction that builds the groups\<close>

lemma map_of_None_iff: "map_of acc key = None \<longleftrightarrow> key \<notin> fst ` set acc"
  by (simp add: map_of_eq_None_iff)

lemma groupStep_Some:
  assumes "map_of acc (K item) = Some v"
  shows "groupStep K acc item
     = Inr (map (\<lambda>(k, v). if k = K item then (k, v @ [item]) else (k, v)) acc)"
  using assms by (simp add: groupStep_def Let_def)

lemma groupStep_None:
  assumes "map_of acc (K item) = None"
  shows "groupStep K acc item
     = (if K item \<in> set objectPrototypeKeys then Inl TypeError else Inr (acc @ [(K item, [item])]))"
  using assms by (simp add: groupStep_def Let_def)

lemma groupStep_inv:
  assumes step: "groupStep K acc item = Inr acc'"
    and d: "distinct (map fst acc)"
    and f: "\<And>k v. (k, v) \<in> set acc \<Longrightarrow> v = filter (\<lambda>x. K x = k) seen \<and> v \<noteq> []"
    and c: "\<And>x. x \<in> set seen \<Longrightarrow> K x \<in> fst ` set acc"
  shows "distinct (map fst acc')"
    and "\<And>k v. (k, v) \<in> set acc' \<Longrightarrow> v = filter (\<lambda>x. K x = k) (seen @ [item]) \<and> v \<noteq> []"
    and "\<And>x. x \<in> set (seen @ [item]) \<Longrightarrow> K x \<in> fst ` set acc'"
proof -
  show "distinct (map fst acc')"
  proof (cases "map_of acc (K item)")
    case None
    then have "K item \<notin> fst ` set acc" by (simp add: map_of_None_iff)
    moreover from step None have "acc' = acc @ [(K item, [item])]"
      by (simp add: groupStep_None split: if_splits)
    ultimately show ?thesis using d by simp
  next
    case (Some v)
    with step have "acc' = map (\<lambda>(k, v). if k = K item then (k, v @ [item]) else (k, v)) acc"
      by (simp add: groupStep_Some)
    then have "map fst acc' = map fst acc" by (auto simp: case_prod_beta)
    with d show ?thesis by simp
  qed
next
  fix k v assume kv: "(k, v) \<in> set acc'"
  show "v = filter (\<lambda>x. K x = k) (seen @ [item]) \<and> v \<noteq> []"
  proof (cases "map_of acc (K item)")
    case None
    then have notin: "K item \<notin> fst ` set acc" by (simp add: map_of_None_iff)
    from step None have acc': "acc' = acc @ [(K item, [item])]"
      by (simp add: groupStep_None split: if_splits)
    show ?thesis
    proof (cases "(k, v) \<in> set acc")
      case True
      then have "k \<noteq> K item" using notin by force
      with f[OF True] show ?thesis by auto
    next
      case False
      with kv acc' have e: "k = K item" "v = [item]" by auto
      have "\<forall>x \<in> set seen. K x \<noteq> K item" using c notin by metis
      then have "filter (\<lambda>x. K x = K item) seen = []"
        by (simp add: filter_empty_conv)
      with e show ?thesis by simp
    qed
  next
    case (Some w)
    with step have acc': "acc' = map (\<lambda>(k, v). if k = K item then (k, v @ [item]) else (k, v)) acc"
      by (simp add: groupStep_Some)
    with kv obtain v0 where v0: "(k, v0) \<in> set acc" "v = (if k = K item then v0 @ [item] else v0)"
      by (auto split: if_splits)
    from f[OF v0(1)] v0(2) show ?thesis by auto
  qed
next
  fix x assume x: "x \<in> set (seen @ [item])"
  show "K x \<in> fst ` set acc'"
  proof (cases "map_of acc (K item)")
    case None
    from step None have acc': "acc' = acc @ [(K item, [item])]"
      by (simp add: groupStep_None split: if_splits)
    with x c show ?thesis by auto
  next
    case (Some w)
    with step have acc': "acc' = map (\<lambda>(k, v). if k = K item then (k, v @ [item]) else (k, v)) acc"
      by (simp add: groupStep_Some)
    then have fst_eq: "map fst acc' = map fst acc" by (auto simp: case_prod_beta)
    from Some have "K item \<in> fst ` set acc" using map_of_None_iff[of acc "K item"] by auto
    with x c have "K x \<in> set (map fst acc)" by auto
    then show ?thesis unfolding fst_eq[symmetric] by simp
  qed
qed

lemma buildGroups_inv:
  assumes "buildGroups K acc rest = Inr groups"
    and "distinct (map fst acc)"
    and "\<And>k v. (k, v) \<in> set acc \<Longrightarrow> v = filter (\<lambda>x. K x = k) seen \<and> v \<noteq> []"
    and "\<And>x. x \<in> set seen \<Longrightarrow> K x \<in> fst ` set acc"
  shows "distinct (map fst groups)
     \<and> (\<forall>(k, v) \<in> set groups. v = filter (\<lambda>x. K x = k) (seen @ rest) \<and> v \<noteq> [])
     \<and> (\<forall>x \<in> set (seen @ rest). K x \<in> fst ` set groups)"
  using assms
proof (induction rest arbitrary: acc seen)
  case Nil
  then show ?case by auto
next
  case (Cons item rest)
  from Cons.prems(1) obtain acc' where step: "groupStep K acc item = Inr acc'"
    and rest: "buildGroups K acc' rest = Inr groups"
    by (auto split: sum.splits)
  note inv = groupStep_inv[OF step Cons.prems(2) Cons.prems(3) Cons.prems(4)]
  from Cons.IH[OF rest inv(1) inv(2) inv(3)] show ?case by simp
qed

lemma buildGroups_partition:
  assumes "buildGroups K [] its = Inr groups"
  shows "distinct (map fst groups)"
    and "\<And>k v. (k, v) \<in> set groups \<Longrightarrow> v = filter (\<lambda>x. K x = k) its \<and> v \<noteq> []"
    and "\<And>x. x \<in> set its \<Longrightarrow> K x \<in> fst ` set groups"
  using buildGroups_inv[OF assms, of "[]"] by auto

lemma buildGroups_error:
  "buildGroups K acc its = Inl e \<Longrightarrow> e = TypeError \<and> (\<exists>x \<in> set its. K x \<in> set objectPrototypeKeys)"
proof (induction its arbitrary: acc)
  case Nil
  then show ?case by simp
next
  case (Cons item rest)
  show ?case
  proof (cases "groupStep K acc item")
    case (Inl e')
    with Cons.prems have "e = e'" by simp
    with Inl show ?thesis
      by (auto simp: groupStep_def Let_def split: option.splits if_splits)
  next
    case (Inr acc')
    with Cons.prems have "buildGroups K acc' rest = Inl e" by simp
    from Cons.IH[OF this] show ?thesis by auto
  qed
qed

subsection \<open>From the groups to the result\<close>

lemma set_entries: "set (entries obj) = set obj"
  by (auto simp: entries_def)

lemma mapResult_Inr_source:
  "mapResult f xs = Inr ys \<Longrightarrow> y \<in> set ys \<Longrightarrow> \<exists>x \<in> set xs. f x = Inr y"
  by (induction xs arbitrary: ys) (auto split: sum.splits)

lemma mapResult_Inr_image:
  "mapResult f xs = Inr ys \<Longrightarrow> x \<in> set xs \<Longrightarrow> \<exists>y \<in> set ys. f x = Inr y"
  by (induction xs arbitrary: ys) (auto split: sum.splits)

lemma mapResult_Inl:
  "mapResult f xs = Inl e \<Longrightarrow> \<exists>x \<in> set xs. f x = Inl e"
  by (induction xs) (auto split: sum.splits)

lemma mapResult_fails:
  "x \<in> set xs \<Longrightarrow> f x = Inl e \<Longrightarrow> \<exists>e'. mapResult f xs = Inl e'"
  by (induction xs) (auto split: sum.splits)

lemma makeGroup_Inr:
  assumes "makeGroup gb aggs (k, v) = Inr g"
  shows "items g = v" and "count g = length v"
    and "aggregatesOf v [] (entries aggs) = Inr (aggregates g)"
  using assms by (auto simp: makeGroup_def split: sum.splits)

lemma set_insertBy: "set (insertBy cmp x ys) = insert x (set ys)"
  by (induction ys) auto

lemma set_foldl_insertBy:
  "set (foldl (\<lambda>sorted x. insertBy cmp x sorted) acc xs) = set acc \<union> set xs"
  by (induction xs arbitrary: acc) (auto simp: set_insertBy)

lemma set_sortWith: "set (sortWith cmp xs) = set xs"
  by (simp add: sortWith_def set_foldl_insertBy)

lemma set_sortResult: "set (sortResult sb r) = set r"
  by (auto simp: sortResult_def set_sortWith split: option.splits)

lemma transformData_Inr:
  assumes "transformData numToString (Arr xs) (Some opts) = Inr result"
    and gb: "groupBy opts = Some gb"
  shows "\<exists>groups.
     buildGroups (createGroupKey numToString gb) [] (filterItems (filterFn opts) xs) = Inr groups
     \<and> (\<forall>g \<in> set result. \<exists>k v. (k, v) \<in> set groups
            \<and> makeGroup gb (aggregationsOrEmpty (aggregations opts)) (k, v) = Inr g)
     \<and> (\<forall>(k, v) \<in> set groups. \<exists>g \<in> set result.
            makeGroup gb (aggregationsOrEmpty (aggregations opts)) (k, v) = Inr g)"
proof -
  let ?K = "createGroupKey numToString gb"
  let ?aggs = "aggregationsOrEmpty (aggregations opts)"
  from assms obtain groups r where
    groups: "buildGroups ?K [] (filterItems (filterFn opts) xs) = Inr groups"
    and r: "mapResult (makeGroup gb ?aggs) (entries groups) = Inr r"
    and res: "result = sortResult (sortBy opts) r"
    by (auto simp: transformData_def Let_def split: if_splits sum.splits)
  have a: "\<exists>k v. (k, v) \<in> set groups \<and> makeGroup gb ?aggs (k, v) = Inr g" if "g \<in> set result" for g
  proof -
    from that res have "g \<in> set r" by (simp add: set_sortResult)
    from mapResult_Inr_source[OF r this]
    obtain e where e: "e \<in> set (entries groups)" "makeGroup gb ?aggs e = Inr g" by auto
    obtain k v where "e = (k, v)" by (cases e)
    with e show ?thesis by (auto simp: set_entries)
  qed
  have b: "\<exists>g \<in> set result. makeGroup gb ?aggs (k, v) = Inr g" if "(k, v) \<in> set groups" for k v
  proof -
    from that have "(k, v) \<in> set (entries groups)" by (simp add: set_entries)
    from mapResult_Inr_image[OF r this] res show ?thesis by (auto simp: set_sortResult)
  qed
  from groups a b show ?thesis by blast
qed

subsection \<open>Group keys\<close>

lemma same_group_iff:
  assumes "buildGroups K [] its = Inr groups" and "a \<in> set its" and "b \<in> set its"
  shows "(\<exists>(k, v) \<in> set groups. a \<in> set v \<and> b \<in> set v) \<longleftrightarrow> K a = K b"
proof
  assume "\<exists>(k, v) \<in> set groups. a \<in> set v \<and> b \<in> set v"
  then obtain k v where kv: "(k, v) \<in> set groups" "a \<in> set v" "b \<in> set v" by auto
  from buildGroups_partition(2)[OF assms(1) kv(1)] kv(2,3) show "K a = K b" by auto
next
  assume eq: "K a = K b"
  from buildGroups_partition(3)[OF assms(1) assms(2)]
  obtain v where kv: "(K a, v) \<in> set groups" by auto
  from buildGroups_partition(2)[OF assms(1) kv] assms(2,3) eq
  have "a \<in> set v \<and> b \<in> set v" by auto
  with kv show "\<exists>(k, v) \<in> set groups. a \<in> set v \<and> b \<in> set v" by auto
qed

text \<open>
  Claim C3, as the code has it. When the call returns, two records of the input (after
  the optional filter) are in the items of one group if and only if \<open>createGroupKey\<close>
  gives them the same string. That string joins the strings of the resolved values with
  a bar, and a value that is absent or \<^verbatim>\<open>null\<close> is written as the empty string: there is
  no marker for a missing value.
\<close>

theorem same_group_iff_equal_keys:
  assumes res: "transformData numToString (Arr arr) (Some opts) = Inr result"
    and gb: "groupBy opts = Some gb"
    and a: "a \<in> set (filterItems (filterFn opts) arr)"
    and b: "b \<in> set (filterItems (filterFn opts) arr)"
  shows "((\<exists>g \<in> set result. a \<in> set (items g) \<and> b \<in> set (items g))
           \<longleftrightarrow> createGroupKey numToString gb a = createGroupKey numToString gb b)
         \<and> createGroupKey numToString gb a
             = joinStrings ''|''
                 (map (\<lambda>key. if getNestedValue a key = Undefined \<or> getNestedValue a key = Null
                             then [] else toStringJS numToString (getNestedValue a key))
                    (keysOf gb))"
proof -
  let ?aggs = "aggregationsOrEmpty (aggregations opts)"
  from transformData_Inr[OF res gb] obtain groups where
    bg: "buildGroups (createGroupKey numToString gb) [] (filterItems (filterFn opts) arr) = Inr groups"
    and r2g: "\<And>g. g \<in> set result \<Longrightarrow>
       \<exists>k v. (k, v) \<in> set groups \<and> makeGroup gb ?aggs (k, v) = Inr g"
    and g2r: "\<And>k v. (k, v) \<in> set groups \<Longrightarrow> \<exists>g \<in> set result. makeGroup gb ?aggs (k, v) = Inr g"
    by blast
  have "(\<exists>g \<in> set result. a \<in> set (items g) \<and> b \<in> set (items g))
      \<longleftrightarrow> (\<exists>(k, v) \<in> set groups. a \<in> set v \<and> b \<in> set v)"
  proof
    assume "\<exists>g \<in> set result. a \<in> set (items g) \<and> b \<in> set (items g)"
    then obtain g where g: "g \<in> set result" "a \<in> set (items g)" "b \<in> set (items g)" by auto
    from r2g[OF g(1)] obtain k v where kv: "(k, v) \<in> set groups" "makeGroup gb ?aggs (k, v) = Inr g"
      by auto
    from makeGroup_Inr(1)[OF kv(2)] g(2,3) kv(1)
    show "\<exists>(k, v) \<in> set groups. a \<in> set v \<and> b \<in> set v" by auto
  next
    assume "\<exists>(k, v) \<in> set groups. a \<in> set v \<and> b \<in> set v"
    then obtain k v where kv: "(k, v) \<in> set groups" "a \<in> set v" "b \<in> set v" by auto
    from g2r[OF kv(1)] obtain g where g: "g \<in> set result" "makeGroup gb ?aggs (k, v) = Inr g"
      by auto
    from makeGroup_Inr(1)[OF g(2)] kv(2,3) g(1)
    show "\<exists>g \<in> set result. a \<in> set (items g) \<and> b \<in> set (items g)" by auto
  qed
  also have "\<dots> \<longleftrightarrow> createGroupKey numToString gb a = createGroupKey numToString gb b"
    by (rule same_group_iff[OF bg a b])
  finally have groups_by_key:
    "(\<exists>g \<in> set result. a \<in> set (items g) \<and> b \<in> set (items g))
       \<longleftrightarrow> createGroupKey numToString gb a = createGroupKey numToString gb b" .
  have key_string: "createGroupKey numToString gb a
      = joinStrings ''|''
          (map (\<lambda>key. if getNestedValue a key = Undefined \<or> getNestedValue a key = Null
                      then [] else toStringJS numToString (getNestedValue a key))
             (keysOf gb))"
    by (simp add: createGroupKey_def joinJS_def elementString_def comp_def)
  from groups_by_key key_string show ?thesis by (rule conjI)
qed

theorem same_group_iff_equal_keys_witness:
  "\<forall>numToString.
     (\<exists>g \<in> set (projr (transformData numToString (Arr bookings) (Some test1Options))).
        bookings ! 0 \<in> set (items g) \<and> bookings ! 2 \<in> set (items g))
     \<and> \<not> (\<exists>g \<in> set (projr (transformData numToString (Arr bookings) (Some test1Options))).
        bookings ! 0 \<in> set (items g) \<and> bookings ! 1 \<in> set (items g))"
proof
  fix numToString
  let ?result = "projr (transformData numToString (Arr bookings) (Some test1Options))"
  have res: "transformData numToString (Arr bookings) (Some test1Options) = Inr ?result"
    by code_simp
  have gb: "groupBy test1Options = Some (Single ''category'')"
    by (simp add: test1Options_def)
  have its: "filterItems (filterFn test1Options) bookings = bookings"
    by (simp add: test1Options_def filterItems_def)
  have m: "bookings ! 0 \<in> set bookings" "bookings ! 1 \<in> set bookings" "bookings ! 2 \<in> set bookings"
    by (simp_all add: bookings_def)
  have same: "createGroupKey numToString (Single ''category'') (bookings ! 0)
      = createGroupKey numToString (Single ''category'') (bookings ! 2)"
    by code_simp
  have other: "createGroupKey numToString (Single ''category'') (bookings ! 0)
      \<noteq> createGroupKey numToString (Single ''category'') (bookings ! 1)"
    by code_simp
  from same_group_iff_equal_keys[OF res gb, of "bookings ! 0" "bookings ! 2", THEN conjunct1]
    same_group_iff_equal_keys[OF res gb, of "bookings ! 0" "bookings ! 1", THEN conjunct1]
    its m same other
  show "(\<exists>g \<in> set ?result. bookings ! 0 \<in> set (items g) \<and> bookings ! 2 \<in> set (items g))
     \<and> \<not> (\<exists>g \<in> set ?result. bookings ! 0 \<in> set (items g) \<and> bookings ! 1 \<in> set (items g))"
    by simp
qed

text \<open>
  Claim C3 as stated fails: a record without the field \<^verbatim>\<open>category\<close> and a record whose
  \<^verbatim>\<open>category\<close> is the empty string resolve to different values, get the same key, and
  are put in one group.
\<close>

theorem absent_collides_with_empty_string:
  "getNestedValue (Obj [(''id'', Num (Finite 1))]) ''category'' = Undefined
   \<and> getNestedValue (Obj [(''id'', Num (Finite 2)), (''category'', Str '''')]) ''category'' = Str ''''
   \<and> (\<forall>numToString.
        createGroupKey numToString (Single ''category'') (Obj [(''id'', Num (Finite 1))])
          = createGroupKey numToString (Single ''category'') (Obj [(''id'', Num (Finite 2)), (''category'', Str '''')]))
   \<and> (\<forall>numToString.
        transformData numToString
          (Arr [Obj [(''id'', Num (Finite 1))], Obj [(''id'', Num (Finite 2)), (''category'', Str '''')]])
          (Some \<lparr>groupBy = Some (Single ''category''), aggregations = None, sortBy = None,
                  filterFn = None\<rparr>)
        = Inr [\<lparr>identity = [(''category'', Some '''')], aggregates = [],
                 items = [Obj [(''id'', Num (Finite 1))], Obj [(''id'', Num (Finite 2)), (''category'', Str '''')]],
                 count = 2\<rparr>])"
proof (intro conjI allI)
  show "getNestedValue (Obj [(''id'', Num (Finite 1))]) ''category'' = Undefined" by code_simp
  show "getNestedValue (Obj [(''id'', Num (Finite 2)), (''category'', Str '''')]) ''category'' = Str ''''"
    by code_simp
  show "createGroupKey numToString (Single ''category'') (Obj [(''id'', Num (Finite 1))])
          = createGroupKey numToString (Single ''category'') (Obj [(''id'', Num (Finite 2)), (''category'', Str '''')])"
    for numToString by code_simp
  show "transformData numToString
          (Arr [Obj [(''id'', Num (Finite 1))], Obj [(''id'', Num (Finite 2)), (''category'', Str '''')]])
          (Some \<lparr>groupBy = Some (Single ''category''), aggregations = None, sortBy = None,
                  filterFn = None\<rparr>)
        = Inr [\<lparr>identity = [(''category'', Some '''')], aggregates = [],
                 items = [Obj [(''id'', Num (Finite 1))], Obj [(''id'', Num (Finite 2)), (''category'', Str '''')]],
                 count = 2\<rparr>]"
    for numToString by code_simp
qed

lemma prefix_before_separator:
  assumes "c \<notin> set a" and "c \<notin> set a'" and "a @ c # b = a' @ c # b'"
  shows "a = a'"
proof -
  have "takeWhile (\<lambda>x. x \<noteq> c) (a @ c # b) = a" using assms(1)
    by (induction a) auto
  moreover have "takeWhile (\<lambda>x. x \<noteq> c) (a' @ c # b') = a'" using assms(2)
    by (induction a') auto
  ultimately show ?thesis using assms(3) by simp
qed

lemma createGroupKey_Single:
  "createGroupKey numToString (Single p) x = elementString numToString (getNestedValue x p)"
  by (simp add: createGroupKey_def joinJS_def)

lemma createGroupKey_pair:
  "createGroupKey numToString (Composite [p, q]) x
     = elementString numToString (getNestedValue x p) @ CHR ''|''
         # elementString numToString (getNestedValue x q)"
  by (simp add: createGroupKey_def joinJS_def)

text \<open>
  Claim C5, as the code has it, for a path \<open>p\<close> (the category) and a second path \<open>q\<close>
  (the city). When both calls return, on the same input and with the same filter, and
  the string of no record's value at \<open>p\<close> contains the bar that separates the parts of a
  key, every group of the composite grouping by \<open>[p, q]\<close> is contained in a group of the
  grouping by \<open>p\<close> alone.
\<close>

theorem composite_groups_refine_single:
  assumes single: "transformData numToString (Arr arr) (Some opts1) = Inr single"
    and composite: "transformData numToString (Arr arr) (Some opts2) = Inr composite"
    and gb1: "groupBy opts1 = Some (Single p)"
    and gb2: "groupBy opts2 = Some (Composite [p, q])"
    and same_filter: "filterFn opts2 = filterFn opts1"
    and no_bar: "\<forall>x \<in> set (filterItems (filterFn opts1) arr).
                   CHR ''|'' \<notin> set (elementString numToString (getNestedValue x p))"
    and g2: "g2 \<in> set composite"
  shows "\<exists>g1 \<in> set single. set (items g2) \<subseteq> set (items g1)"
proof -
  let ?its = "filterItems (filterFn opts1) arr"
  let ?K1 = "createGroupKey numToString (Single p)"
  let ?K2 = "createGroupKey numToString (Composite [p, q])"
  from transformData_Inr[OF single gb1] obtain groups1 where
    bg1: "buildGroups ?K1 [] ?its = Inr groups1"
    and g2r1: "\<And>k v. (k, v) \<in> set groups1 \<Longrightarrow>
       \<exists>g \<in> set single. makeGroup (Single p) (aggregationsOrEmpty (aggregations opts1)) (k, v) = Inr g"
    by blast
  from transformData_Inr[OF composite gb2] same_filter obtain groups2 where
    bg2: "buildGroups ?K2 [] ?its = Inr groups2"
    and r2g2: "\<And>g. g \<in> set composite \<Longrightarrow>
       \<exists>k v. (k, v) \<in> set groups2
         \<and> makeGroup (Composite [p, q]) (aggregationsOrEmpty (aggregations opts2)) (k, v) = Inr g"
    by auto
  from r2g2[OF g2] obtain k2 v2 where kv2: "(k2, v2) \<in> set groups2"
    and mk2: "makeGroup (Composite [p, q]) (aggregationsOrEmpty (aggregations opts2)) (k2, v2) = Inr g2"
    by auto
  from makeGroup_Inr(1)[OF mk2] have items2: "items g2 = v2" .
  from buildGroups_partition(2)[OF bg2 kv2]
  have v2: "v2 = filter (\<lambda>x. ?K2 x = k2) ?its" and ne: "v2 \<noteq> []" by auto
  from ne obtain x0 where x0: "x0 \<in> set v2" by (cases v2) auto
  with v2 have x0_in: "x0 \<in> set ?its" and x0_key: "?K2 x0 = k2" by auto
  from buildGroups_partition(3)[OF bg1 x0_in] obtain v1 where kv1: "(?K1 x0, v1) \<in> set groups1"
    by auto
  from buildGroups_partition(2)[OF bg1 kv1] have v1: "v1 = filter (\<lambda>x. ?K1 x = ?K1 x0) ?its" by auto
  from g2r1[OF kv1] obtain g1 where g1: "g1 \<in> set single"
    and mk1: "makeGroup (Single p) (aggregationsOrEmpty (aggregations opts1)) (?K1 x0, v1) = Inr g1"
    by auto
  from makeGroup_Inr(1)[OF mk1] have items1: "items g1 = v1" .
  have "set v2 \<subseteq> set v1"
  proof
    fix x assume "x \<in> set v2"
    with v2 have x_in: "x \<in> set ?its" and x_key: "?K2 x = k2" by auto
    from x_key x0_key have "?K2 x = ?K2 x0" by simp
    then have "?K1 x = ?K1 x0"
      unfolding createGroupKey_pair createGroupKey_Single
      using no_bar x_in x0_in by (blast intro: prefix_before_separator)
    with x_in v1 show "x \<in> set v1" by simp
  qed
  with g1 items1 items2 show ?thesis by auto
qed

theorem composite_groups_refine_single_witness:
  "\<forall>numToString.
     \<exists>g1 \<in> set (projr (transformData numToString (Arr bookings) (Some test1Options))).
       set (items (hd (projr (transformData numToString (Arr bookings) (Some test3Options)))))
         \<subseteq> set (items g1)"
proof
  fix numToString
  let ?single = "projr (transformData numToString (Arr bookings) (Some test1Options))"
  let ?composite = "projr (transformData numToString (Arr bookings) (Some test3Options))"
  have single: "transformData numToString (Arr bookings) (Some test1Options) = Inr ?single"
    by code_simp
  have composite: "transformData numToString (Arr bookings) (Some test3Options) = Inr ?composite"
    by code_simp
  have gb1: "groupBy test1Options = Some (Single ''category'')"
    by (simp add: test1Options_def)
  have gb3: "groupBy test3Options = Some (Composite [''category'', ''location.city''])"
    by (simp add: test3Options_def)
  have f: "filterFn test3Options = filterFn test1Options"
    by (simp add: test1Options_def test3Options_def)
  have its: "filterItems (filterFn test1Options) bookings = bookings"
    by (simp add: test1Options_def filterItems_def)
  have "list_all (\<lambda>x. CHR ''|'' \<notin> set (elementString numToString (getNestedValue x ''category''))) bookings"
    by code_simp
  then have no_bar: "\<forall>x \<in> set (filterItems (filterFn test1Options) bookings).
      CHR ''|'' \<notin> set (elementString numToString (getNestedValue x ''category''))"
    unfolding its by (simp add: list_all_iff)
  have "?composite \<noteq> []" by code_simp
  then have g2: "hd ?composite \<in> set ?composite" by simp
  from composite_groups_refine_single[OF single composite gb1 gb3 f no_bar g2]
  show "\<exists>g1 \<in> set ?single. set (items (hd ?composite)) \<subseteq> set (items g1)" .
qed

text \<open>
  Claim C5 as stated fails when a value contains the bar. The categories \<^verbatim>\<open>a|b\<close> and
  \<^verbatim>\<open>a\<close> with the cities \<^verbatim>\<open>c\<close> and \<^verbatim>\<open>b|c\<close> give the one composite key \<^verbatim>\<open>a|b|c\<close>: the
  composite grouping has one group with both records, the grouping by category has two
  groups with one record each, and neither contains the composite group.
\<close>

theorem separator_in_value_merges_groups:
  "\<forall>numToString.
    (case transformData numToString
           (Arr [Obj [(''category'', Str ''a|b''), (''location'', Obj [(''city'', Str ''c'')])],
                 Obj [(''category'', Str ''a''), (''location'', Obj [(''city'', Str ''b|c'')])]])
           (Some \<lparr>groupBy = Some (Composite [''category'', ''location.city'']),
                   aggregations = None, sortBy = None, filterFn = None\<rparr>)
         of Inl e \<Rightarrow> [] | Inr result \<Rightarrow> map items result)
    = [[Obj [(''category'', Str ''a|b''), (''location'', Obj [(''city'', Str ''c'')])],
        Obj [(''category'', Str ''a''), (''location'', Obj [(''city'', Str ''b|c'')])]]]
    \<and>
    (case transformData numToString
           (Arr [Obj [(''category'', Str ''a|b''), (''location'', Obj [(''city'', Str ''c'')])],
                 Obj [(''category'', Str ''a''), (''location'', Obj [(''city'', Str ''b|c'')])]])
           (Some \<lparr>groupBy = Some (Single ''category''),
                   aggregations = None, sortBy = None, filterFn = None\<rparr>)
         of Inl e \<Rightarrow> [] | Inr result \<Rightarrow> map items result)
    = [[Obj [(''category'', Str ''a|b''), (''location'', Obj [(''city'', Str ''c'')])]],
       [Obj [(''category'', Str ''a''), (''location'', Obj [(''city'', Str ''b|c'')])]]]"
proof (intro allI conjI)
  fix numToString
  show "(case transformData numToString
           (Arr [Obj [(''category'', Str ''a|b''), (''location'', Obj [(''city'', Str ''c'')])],
                 Obj [(''category'', Str ''a''), (''location'', Obj [(''city'', Str ''b|c'')])]])
           (Some \<lparr>groupBy = Some (Composite [''category'', ''location.city'']),
                   aggregations = None, sortBy = None, filterFn = None\<rparr>)
         of Inl e \<Rightarrow> [] | Inr result \<Rightarrow> map items result)
    = [[Obj [(''category'', Str ''a|b''), (''location'', Obj [(''city'', Str ''c'')])],
        Obj [(''category'', Str ''a''), (''location'', Obj [(''city'', Str ''b|c'')])]]]"
    by code_simp
  show "(case transformData numToString
           (Arr [Obj [(''category'', Str ''a|b''), (''location'', Obj [(''city'', Str ''c'')])],
                 Obj [(''category'', Str ''a''), (''location'', Obj [(''city'', Str ''b|c'')])]])
           (Some \<lparr>groupBy = Some (Single ''category''),
                   aggregations = None, sortBy = None, filterFn = None\<rparr>)
         of Inl e \<Rightarrow> [] | Inr result \<Rightarrow> map items result)
    = [[Obj [(''category'', Str ''a|b''), (''location'', Obj [(''city'', Str ''c'')])]],
       [Obj [(''category'', Str ''a''), (''location'', Obj [(''city'', Str ''b|c'')])]]]"
    by code_simp
qed

text \<open>
  Claim C6 at an input on which the code fails it. The group key of the record is
  \<^verbatim>\<open>toString\<close>, the name of a member that the accumulator inherits: \<^verbatim>\<open>acc[key]\<close> is that
  function, so no array is stored, \<^verbatim>\<open>push\<close> is not a function of it, and the call throws
  instead of returning the group of the record.
\<close>

theorem inherited_key_throws:
  "transformData numToString (Arr [Obj [(''id'', Num (Finite 1)), (''category'', Str ''toString'')]])
     (Some \<lparr>groupBy = Some (Single ''category''), aggregations = None, sortBy = None,
             filterFn = None\<rparr>)
   = Inl TypeError"
  by code_simp

lemma one_group_per_record:
  assumes res: "transformData numToString (Arr arr) (Some opts) = Inr result"
    and gb: "groupBy opts = Some gb"
    and x: "x \<in> set (filterItems (filterFn opts) arr)"
  shows "\<exists>!g. g \<in> set result \<and> x \<in> set (items g)"
    and "\<And>g. g \<in> set result \<Longrightarrow> x \<in> set (items g) \<Longrightarrow>
           items g = filter (\<lambda>y. createGroupKey numToString gb y = createGroupKey numToString gb x)
                       (filterItems (filterFn opts) arr)"
proof -
  let ?K = "createGroupKey numToString gb"
  let ?its = "filterItems (filterFn opts) arr"
  let ?aggs = "aggregationsOrEmpty (aggregations opts)"
  from transformData_Inr[OF res gb] obtain groups where
    bg: "buildGroups ?K [] ?its = Inr groups"
    and r2g: "\<And>g. g \<in> set result \<Longrightarrow>
       \<exists>k v. (k, v) \<in> set groups \<and> makeGroup gb ?aggs (k, v) = Inr g"
    and g2r: "\<And>k v. (k, v) \<in> set groups \<Longrightarrow> \<exists>g \<in> set result. makeGroup gb ?aggs (k, v) = Inr g"
    by blast
  have origin: "makeGroup gb ?aggs (?K x, filter (\<lambda>y. ?K y = ?K x) ?its) = Inr g
      \<and> items g = filter (\<lambda>y. ?K y = ?K x) ?its"
    if g: "g \<in> set result" "x \<in> set (items g)" for g
  proof -
    from r2g[OF g(1)] obtain k v where kv: "(k, v) \<in> set groups" "makeGroup gb ?aggs (k, v) = Inr g"
      by auto
    from makeGroup_Inr(1)[OF kv(2)] g(2) have xv: "x \<in> set v" by simp
    from buildGroups_partition(2)[OF bg kv(1)] have v: "v = filter (\<lambda>y. ?K y = k) ?its" by simp
    with xv have "k = ?K x" by auto
    with v kv(2) makeGroup_Inr(1)[OF kv(2)] show ?thesis by simp
  qed
  show "\<exists>!g. g \<in> set result \<and> x \<in> set (items g)"
  proof (rule ex_ex1I)
    from buildGroups_partition(3)[OF bg x] obtain v where kv: "(?K x, v) \<in> set groups" by auto
    from buildGroups_partition(2)[OF bg kv] x have "x \<in> set v" by simp
    moreover from g2r[OF kv] obtain g where "g \<in> set result" "makeGroup gb ?aggs (?K x, v) = Inr g"
      by auto
    ultimately show "\<exists>g. g \<in> set result \<and> x \<in> set (items g)"
      using makeGroup_Inr(1) by blast
  next
    fix g g' assume "g \<in> set result \<and> x \<in> set (items g)" "g' \<in> set result \<and> x \<in> set (items g')"
    then have "makeGroup gb ?aggs (?K x, filter (\<lambda>y. ?K y = ?K x) ?its) = Inr g"
      and "makeGroup gb ?aggs (?K x, filter (\<lambda>y. ?K y = ?K x) ?its) = Inr g'"
      using origin by blast+
    then show "g = g'" by simp
  qed
  show "items g = filter (\<lambda>y. ?K y = ?K x) ?its" if "g \<in> set result" "x \<in> set (items g)" for g
    using origin[OF that] by simp
qed

text \<open>
  Where the call returns, the groups partition the input: every record of the input
  (after the optional filter) is in the items of exactly one group, and the items of
  that group are the records of the input with the same key, in input order and as
  often as they occur there.
\<close>

theorem returned_groups_partition_input:
  assumes "transformData numToString (Arr arr) (Some opts) = Inr result"
    and "groupBy opts = Some gb"
    and "x \<in> set (filterItems (filterFn opts) arr)"
  shows "(\<exists>!g. g \<in> set result \<and> x \<in> set (items g))
     \<and> (\<forall>g \<in> set result. x \<in> set (items g) \<longrightarrow>
           items g = filter (\<lambda>y. createGroupKey numToString gb y = createGroupKey numToString gb x)
                       (filterItems (filterFn opts) arr))"
  using one_group_per_record[OF assms] by blast

theorem returned_groups_partition_input_witness:
  "\<forall>numToString.
     \<exists>!g. g \<in> set (projr (transformData numToString (Arr bookings) (Some test1Options)))
          \<and> bookings ! 0 \<in> set (items g)"
proof
  fix numToString
  let ?result = "projr (transformData numToString (Arr bookings) (Some test1Options))"
  have res: "transformData numToString (Arr bookings) (Some test1Options) = Inr ?result"
    by code_simp
  have gb: "groupBy test1Options = Some (Single ''category'')"
    by (simp add: test1Options_def)
  have x: "bookings ! 0 \<in> set (filterItems (filterFn test1Options) bookings)"
    by (simp add: test1Options_def filterItems_def bookings_def)
  from returned_groups_partition_input[OF res gb x]
  show "\<exists>!g. g \<in> set ?result \<and> bookings ! 0 \<in> set (items g)" by (rule conjunct1)
qed

subsection \<open>Arithmetic of doubles\<close>

lemma roundHalfEven_of_int: "roundHalfEven (of_int n) = n"
  by (simp add: roundHalfEven_def)

lemma bitlen_1: "bitlen 1 = 1"
  by code_simp

lemma floorLog2_of_int: "0 < n \<Longrightarrow> floorLog2 (of_int n) \<le> bitlen n - 1"
  by (simp add: floorLog2_def Let_def bitlen_1)

lemma scaled_integer:
  assumes "e \<le> 0"
  shows "(of_int a :: rat) / 2 powi e = of_int (a * 2 ^ nat (- e))"
    and "(of_int (a * 2 ^ nat (- e)) :: rat) * 2 powi e = of_int a"
  using assms by (simp_all add: power_int_def field_simps)

lemma roundDouble_of_int:
  assumes "\<bar>n\<bar> < 2 ^ 53"
  shows "roundDouble (of_int n) = Finite (of_int n)"
proof (cases "n = 0")
  case True
  then show ?thesis by (simp add: roundDouble_def)
next
  case False
  define a where "a = \<bar>n\<bar>"
  define e where "e = max (floorLog2 (of_int a) - 52) (- 1074)"
  from False have a: "0 < a" by (simp add: a_def)
  from assms have "bitlen a \<le> 53" by (simp add: bitlen_le_iff_power a_def)
  with floorLog2_of_int[OF a] have e: "e \<le> 0" by (simp add: e_def)
  have m: "roundHalfEven (of_int a / 2 powi e) = a * 2 ^ nat (- e)"
    by (simp only: scaled_integer(1)[OF e] roundHalfEven_of_int)
  have bl: "bitlen (a * 2 ^ nat (- e)) + e = bitlen a"
    using a e by (simp add: bitlen_pow2)
  have abs: "\<bar>of_int n :: rat\<bar> = of_int a" by (simp add: a_def)
  have nz: "a * 2 ^ nat (- e) \<noteq> 0" using a by simp
  have "roundDouble (of_int n) = Finite (if 0 < n then of_int a else - of_int a)"
    using False \<open>bitlen a \<le> 53\<close> nz
    by (simp add: roundDouble_def abs e_def[symmetric] Let_def m bl scaled_integer(2)[OF e]
        del: of_int_mult of_int_power)
  also have "(if 0 < n then of_int a else - of_int a :: rat) = of_int n"
    by (simp add: a_def)
  finally show ?thesis .
qed

lemma foldl_fadd_of_int:
  "\<bar>a\<bar> + sum_list (map abs ns) < 2 ^ 53
     \<Longrightarrow> foldl (\<lambda>sum v. fadd sum v) (Finite (of_int a)) (map (\<lambda>n. Finite (of_int n)) ns)
          = Finite (of_int (a + sum_list ns))"
proof (induction ns arbitrary: a)
  case Nil
  then show ?case by simp
next
  case (Cons n ns)
  have "\<bar>a + n\<bar> \<le> \<bar>a\<bar> + \<bar>n\<bar>" by simp
  moreover have "0 \<le> sum_list (map abs ns)" by (rule sum_list_nonneg) auto
  ultimately have small: "\<bar>a + n\<bar> < 2 ^ 53" and rest: "\<bar>a + n\<bar> + sum_list (map abs ns) < 2 ^ 53"
    using Cons.prems by simp_all
  have "fadd (Finite (of_int a)) (Finite (of_int n)) = Finite (of_int (a + n))"
    using roundDouble_of_int[OF small] by simp
  with Cons.IH[OF rest] show ?case by (simp add: add.assoc)
qed

lemma sum_of_integers:
  assumes "sum_list (map abs ns) < 2 ^ 53"
  shows "foldl (\<lambda>sum v. fadd sum v) (Finite 0) (map (\<lambda>n. Finite (of_int n)) ns)
           = Finite (of_int (sum_list ns))"
  using foldl_fadd_of_int[of 0 ns] assms by simp

lemma fdiv_of_int:
  assumes "0 < n"
  shows "fdiv (Finite (of_int s)) (Finite (of_nat n)) = roundDouble (of_int s / of_nat n)"
  using assms by (auto simp: fdiv_def Let_def roundDouble_def)

lemma foldl_fadd_DNaN: "foldl (\<lambda>sum v. fadd sum v) DNaN xs = DNaN"
  by (induction xs) auto

lemma fadd_DNaN_right: "fadd x DNaN = DNaN"
  by (cases x) auto

lemma sum_with_DNaN:
  "DNaN \<in> set xs \<Longrightarrow> foldl (\<lambda>sum v. fadd sum v) a xs = DNaN"
  by (induction xs arbitrary: a) (auto simp: foldl_fadd_DNaN fadd_DNaN_right)

lemma numLeq_refl: "x \<noteq> DNaN \<Longrightarrow> numLeq x x"
  by (simp add: numLeq_def numLess_def)

lemma numLeq_trans: "numLeq x y \<Longrightarrow> numLeq y z \<Longrightarrow> numLeq x z"
  by (auto simp: numLeq_def numLess_def)

lemma numLeq_total: "x \<noteq> DNaN \<Longrightarrow> y \<noteq> DNaN \<Longrightarrow> numLess x y \<or> numLeq y x"
  by (auto simp: numLeq_def)

lemma numLess_numLeq: "numLess x y \<Longrightarrow> numLeq x y"
  by (auto simp: numLeq_def numLess_def)

lemma zeros_numLeq: "numLeq NegZero (Finite 0)" "numLeq (Finite 0) NegZero"
  by (simp_all add: numLeq_def numLess_def)

lemma foldl_min_mem:
  "foldl (\<lambda>lowest number.
            if (number = NegZero \<and> lowest = Finite 0) \<or> numLess number lowest
            then number else lowest) a xs \<in> insert a (set xs)"
  by (induction xs arbitrary: a) auto

lemma foldl_min_least:
  assumes "DNaN \<notin> set xs" and "a \<noteq> DNaN" and "v \<in> insert a (set xs)"
  shows "numLeq (foldl (\<lambda>lowest number.
            if (number = NegZero \<and> lowest = Finite 0) \<or> numLess number lowest
            then number else lowest) a xs) v"
  using assms
proof (induction xs arbitrary: a v)
  case Nil
  then show ?case by (simp add: numLeq_refl)
next
  case (Cons x xs)
  let ?step = "\<lambda>lowest number.
            if (number = NegZero \<and> lowest = Finite 0) \<or> numLess number lowest
            then number else lowest"
  let ?a = "?step a x"
  from Cons.prems have x: "x \<noteq> DNaN" and xs: "DNaN \<notin> set xs" by auto
  from x Cons.prems(2) have a': "?a \<noteq> DNaN" by simp
  have le_a: "numLeq ?a a" and le_x: "numLeq ?a x"
    using x Cons.prems(2) by (auto simp: numLeq_def numLess_def)
  have r: "numLeq (foldl ?step ?a xs) ?a" by (rule Cons.IH[OF xs a']) simp
  from Cons.prems(3) consider "v = a" | "v = x" | "v \<in> set xs" by auto
  then show ?case
  proof cases
    case 1
    with numLeq_trans[OF r le_a] show ?thesis by simp
  next
    case 2
    with numLeq_trans[OF r le_x] show ?thesis by simp
  next
    case 3
    then have "numLeq (foldl ?step ?a xs) v" by (intro Cons.IH[OF xs a']) simp
    then show ?thesis by simp
  qed
qed

lemma mathMin_least:
  assumes "xs \<noteq> []" and "DNaN \<notin> set xs"
  shows "mathMin xs \<in> set xs" and "\<forall>v \<in> set xs. numLeq (mathMin xs) v"
proof -
  let ?step = "\<lambda>lowest number.
            if (number = NegZero \<and> lowest = Finite 0) \<or> numLess number lowest
            then number else lowest"
  have eq: "mathMin xs = foldl ?step PosInf xs" using assms(2) by (simp add: mathMin_def)
  have least: "numLeq (mathMin xs) v" if "v \<in> insert PosInf (set xs)" for v
    unfolding eq by (rule foldl_min_least[OF assms(2) _ that]) simp
  then show "\<forall>v \<in> set xs. numLeq (mathMin xs) v" by simp
  from foldl_min_mem[of PosInf xs] have "mathMin xs = PosInf \<or> mathMin xs \<in> set xs"
    unfolding eq by simp
  then show "mathMin xs \<in> set xs"
  proof
    assume inf: "mathMin xs = PosInf"
    from assms(1) obtain v where v: "v \<in> set xs" by (cases xs) auto
    with least[of v] inf have "numLeq PosInf v" by simp
    then have "v = PosInf" by (cases v) (auto simp: numLeq_def numLess_def)
    with v inf show ?thesis by simp
  qed
qed

lemma foldl_max_mem:
  "foldl (\<lambda>highest number.
            if (number = Finite 0 \<and> highest = NegZero) \<or> numLess highest number
            then number else highest) a xs \<in> insert a (set xs)"
  by (induction xs arbitrary: a) auto

lemma foldl_max_greatest:
  assumes "DNaN \<notin> set xs" and "a \<noteq> DNaN" and "v \<in> insert a (set xs)"
  shows "numLeq v (foldl (\<lambda>highest number.
            if (number = Finite 0 \<and> highest = NegZero) \<or> numLess highest number
            then number else highest) a xs)"
  using assms
proof (induction xs arbitrary: a v)
  case Nil
  then show ?case by (simp add: numLeq_refl)
next
  case (Cons x xs)
  let ?step = "\<lambda>highest number.
            if (number = Finite 0 \<and> highest = NegZero) \<or> numLess highest number
            then number else highest"
  let ?a = "?step a x"
  from Cons.prems have x: "x \<noteq> DNaN" and xs: "DNaN \<notin> set xs" by auto
  from x Cons.prems(2) have a': "?a \<noteq> DNaN" by simp
  have le_a: "numLeq a ?a" and le_x: "numLeq x ?a"
    using x Cons.prems(2) by (auto simp: numLeq_def numLess_def)
  have r: "numLeq ?a (foldl ?step ?a xs)" by (rule Cons.IH[OF xs a']) simp
  from Cons.prems(3) consider "v = a" | "v = x" | "v \<in> set xs" by auto
  then show ?case
  proof cases
    case 1
    with numLeq_trans[OF le_a r] show ?thesis by simp
  next
    case 2
    with numLeq_trans[OF le_x r] show ?thesis by simp
  next
    case 3
    then have "numLeq v (foldl ?step ?a xs)" by (intro Cons.IH[OF xs a']) simp
    then show ?thesis by simp
  qed
qed

lemma mathMax_greatest:
  assumes "xs \<noteq> []" and "DNaN \<notin> set xs"
  shows "mathMax xs \<in> set xs" and "\<forall>v \<in> set xs. numLeq v (mathMax xs)"
proof -
  let ?step = "\<lambda>highest number.
            if (number = Finite 0 \<and> highest = NegZero) \<or> numLess highest number
            then number else highest"
  have eq: "mathMax xs = foldl ?step NegInf xs" using assms(2) by (simp add: mathMax_def)
  have greatest: "numLeq v (mathMax xs)" if "v \<in> insert NegInf (set xs)" for v
    unfolding eq by (rule foldl_max_greatest[OF assms(2) _ that]) simp
  then show "\<forall>v \<in> set xs. numLeq v (mathMax xs)" by simp
  from foldl_max_mem[of NegInf xs] have "mathMax xs = NegInf \<or> mathMax xs \<in> set xs"
    unfolding eq by simp
  then show "mathMax xs \<in> set xs"
  proof
    assume inf: "mathMax xs = NegInf"
    from assms(1) obtain v where v: "v \<in> set xs" by (cases xs) auto
    with greatest[of v] inf have "numLeq v NegInf" by simp
    then have "v = NegInf" by (cases v) (auto simp: numLeq_def numLess_def)
    with v inf show ?thesis by simp
  qed
qed

lemma bitlen_positive: "0 < m \<Longrightarrow> 0 < bitlen m"
  using bitlen_bounds[of m] by (cases "0 < bitlen m") auto

text \<open>The test for an overflow in \<open>roundDouble\<close> is the comparison with \<open>2^1024\<close>.\<close>

lemma overflow_test:
  assumes "0 < m"
  shows "1024 < bitlen m + e \<longleftrightarrow> (2 :: rat) ^ 1024 \<le> of_int m * 2 powi e"
proof -
  define b where "b = bitlen m"
  from bitlen_positive[OF assms] have b: "0 < b" by (simp add: b_def)
  from bitlen_bounds[OF assms] have "2 ^ nat (b - 1) \<le> m" and "m < 2 ^ nat b"
    by (simp_all add: b_def)
  then have "(of_int (2 ^ nat (b - 1)) :: rat) \<le> of_int m" and "(of_int m :: rat) < of_int (2 ^ nat b)"
    by (simp_all only: of_int_le_iff of_int_less_iff)
  with b have lo: "(2 :: rat) powi (b - 1) \<le> of_int m" and hi: "of_int m < (2 :: rat) powi b"
    by (simp_all add: power_int_def)
  have p: "0 < (2 :: rat) powi e" by simp
  from lo p have "(2 :: rat) powi (b - 1) * 2 powi e \<le> of_int m * 2 powi e"
    by (simp only: mult_le_cancel_right_pos)
  then have lo': "(2 :: rat) powi (b - 1 + e) \<le> of_int m * 2 powi e"
    by (simp add: power_int_add)
  from hi p have "of_int m * 2 powi e < (2 :: rat) powi b * 2 powi e"
    by (simp only: mult_less_cancel_right_pos)
  then have hi': "of_int m * 2 powi e < (2 :: rat) powi (b + e)"
    by (simp add: power_int_add)
  have c: "(2 :: rat) ^ 1024 = 2 powi 1024" by simp
  show ?thesis
  proof
    assume "1024 < bitlen m + e"
    then have "(1024 :: int) \<le> b - 1 + e" by (simp add: b_def)
    then have "(2 :: rat) powi 1024 \<le> 2 powi (b - 1 + e)" by (intro power_int_increasing) simp_all
    from this lo' show "(2 :: rat) ^ 1024 \<le> of_int m * 2 powi e" unfolding c by (rule order_trans)
  next
    assume big: "(2 :: rat) ^ 1024 \<le> of_int m * 2 powi e"
    show "1024 < bitlen m + e"
    proof (rule ccontr)
      assume "\<not> 1024 < bitlen m + e"
      then have "b + e \<le> 1024" by (simp add: b_def)
      then have "(2 :: rat) powi (b + e) \<le> 2 powi 1024" by (intro power_int_increasing) simp_all
      with hi' have "of_int m * 2 powi e < (2 :: rat) powi 1024" by (rule less_le_trans)
      with big show False unfolding c by simp
    qed
  qed
qed

text \<open>
  Some decimal literals of the language and their doubles: \<^verbatim>\<open>0.1\<close>, a third, and the
  integers around \<open>2^53\<close>, where only the even ones are doubles.
\<close>

lemma roundDouble_examples:
  "roundDouble (1 / 10) = Finite (3602879701896397 / 36028797018963968)"
  "roundDouble (1 / 3) = Finite (6004799503160661 / 18014398509481984)"
  "roundDouble 9007199254740993 = Finite 9007199254740992"
  "roundDouble 9007199254740995 = Finite 9007199254740996"
  "roundDouble (- 9007199254740993) = Finite (- 9007199254740992)"
  by code_simp+

subsection \<open>Aggregates\<close>

lemma map_of_putOwn: "map_of (putOwn acc k v) k' = (if k' = k then Some v else map_of acc k')"
  by (induction acc k v rule: putOwn.induct) auto

lemma map_of_assign:
  "map_of (assign acc k v) k' = (if k' = k \<and> k \<noteq> ''__proto__'' then Some v else map_of acc k')"
  by (simp add: assign_def map_of_putOwn)

lemma aggregatesOf_other:
  "aggregatesOf gi acc es = Inr r \<Longrightarrow> f \<notin> fst ` set es \<Longrightarrow> map_of r f = map_of acc f"
proof (induction es arbitrary: acc)
  case Nil
  then show ?case by simp
next
  case (Cons e es)
  obtain f' k' where e: "e = (f', k')" by (cases e)
  with Cons.prems obtain v where "aggregatesOf gi (assign acc f' v) es = Inr r" and "f \<noteq> f'"
    and "f \<notin> fst ` set es"
    by (auto split: sum.splits)
  with Cons.IH[of "assign acc f' v"] show ?case by (simp add: map_of_assign)
qed

lemma aggregatesOf_entry:
  "aggregatesOf gi acc es = Inr r \<Longrightarrow> distinct (map fst es) \<Longrightarrow> (f, k) \<in> set es
     \<Longrightarrow> \<exists>v. aggregate gi f k = Inr v
           \<and> map_of r f = (if f = ''__proto__'' then map_of acc f else Some v)"
proof (induction es arbitrary: acc)
  case Nil
  then show ?case by simp
next
  case (Cons e es)
  obtain f' k' where e: "e = (f', k')" by (cases e)
  with Cons.prems(1) obtain v where v: "aggregate gi f' k' = Inr v"
    and rest: "aggregatesOf gi (assign acc f' v) es = Inr r"
    by (auto split: sum.splits)
  show ?case
  proof (cases "(f, k) = (f', k')")
    case True
    with Cons.prems(2) e have "f \<notin> fst ` set es" by auto
    from aggregatesOf_other[OF rest this] True v show ?thesis by (simp add: map_of_assign)
  next
    case False
    with Cons.prems e have in_es: "(f, k) \<in> set es" and "distinct (map fst es)" by auto
    from Cons.IH[OF rest this(2) this(1)] show ?thesis by (auto simp: map_of_assign)
  qed
qed

lemma distinct_entries:
  assumes "distinct (map fst obj)"
  shows "distinct (map fst (entries obj))"
proof -
  from assms have d: "distinct obj" and i: "inj_on fst (set obj)" by (auto simp: distinct_map)
  have "distinct (entries obj)" using d by (auto simp: entries_def)
  moreover have "inj_on fst (set (entries obj))" using i by (simp add: set_entries)
  ultimately show ?thesis by (simp add: distinct_map)
qed

subsection \<open>Unknown aggregation kinds\<close>

lemma buildGroups_total:
  assumes "\<forall>x \<in> set its. K x \<notin> set objectPrototypeKeys"
  shows "\<exists>groups. buildGroups K acc its = Inr groups"
proof (cases "buildGroups K acc its")
  case (Inl e)
  from buildGroups_error[OF Inl] assms show ?thesis by blast
next
  case (Inr groups)
  then show ?thesis by blast
qed

lemma numericValues_nonempty:
  "x \<in> set v \<Longrightarrow> numberOf (getNestedValue x f) \<noteq> None \<Longrightarrow> numericValues v f \<noteq> []"
  by (induction v) (auto simp: numericValues_def map_filter_simps split: option.splits)

lemma aggregate_Inl:
  "aggregate gi f k = Inl e \<Longrightarrow>
     k \<notin> knownKinds \<and> e = Error (''Unknown aggregation: '' @ k)"
  by (auto simp: aggregate_def knownKinds_def Let_def split: if_splits)

lemma aggregate_unknown:
  "k \<notin> knownKinds \<Longrightarrow> numericValues gi f \<noteq> []
     \<Longrightarrow> aggregate gi f k = Inl (Error (''Unknown aggregation: '' @ k))"
  by (auto simp: aggregate_def knownKinds_def Let_def)

lemma aggregatesOf_Inl:
  "aggregatesOf gi acc es = Inl e \<Longrightarrow>
     \<exists>(f, k) \<in> set es. k \<notin> knownKinds
        \<and> e = Error (''Unknown aggregation: '' @ k)"
proof (induction es arbitrary: acc)
  case Nil
  then show ?case by simp
next
  case (Cons a es)
  obtain f k where a: "a = (f, k)" by (cases a)
  show ?case
  proof (cases "aggregate gi f k")
    case (Inl e')
    with Cons.prems a have "e = e'" by simp
    with aggregate_Inl[OF Inl] a show ?thesis by auto
  next
    case (Inr v)
    with Cons.prems a have "aggregatesOf gi (assign acc f v) es = Inl e" by simp
    from Cons.IH[OF this] show ?thesis by auto
  qed
qed

lemma aggregatesOf_fails:
  "(f, k) \<in> set es \<Longrightarrow> k \<notin> knownKinds
     \<Longrightarrow> numericValues gi f \<noteq> [] \<Longrightarrow> \<exists>e. aggregatesOf gi acc es = Inl e"
proof (induction es arbitrary: acc)
  case Nil
  then show ?case by simp
next
  case (Cons a es)
  obtain f' k' where a: "a = (f', k')" by (cases a)
  show ?case
  proof (cases "aggregate gi f' k'")
    case (Inl e')
    with a show ?thesis by simp
  next
    case (Inr v)
    with aggregate_unknown[OF Cons.prems(2,3)] a Cons.prems(1) have "(f, k) \<in> set es" by auto
    from Cons.IH[OF this Cons.prems(2,3)] Inr a show ?thesis by simp
  qed
qed

text \<open>
  Claim C4, as the code has it. Let \<^verbatim>\<open>groupBy\<close> be given, let no group key be the name of
  an inherited member, and let \<^verbatim>\<open>aggregations\<close> map a field to a kind that is not known.
  If some record of the input (after the optional filter) has a number at that field,
  the call throws an \<^verbatim>\<open>Error\<close> whose message is \<^verbatim>\<open>Unknown aggregation: \<close> followed by an
  unknown kind of \<^verbatim>\<open>aggregations\<close>. The message does not name the field.
\<close>

theorem unknown_aggregation_throws:
  assumes gb: "groupBy opts = Some gb"
    and given: "\<not> groupByMissing (Some opts)"
    and keys: "\<forall>x \<in> set (filterItems (filterFn opts) arr).
                 createGroupKey numToString gb x \<notin> set objectPrototypeKeys"
    and entry: "(f, kind) \<in> set (aggregationsOrEmpty (aggregations opts))"
    and unknown: "kind \<notin> knownKinds"
    and numeric: "\<exists>x \<in> set (filterItems (filterFn opts) arr). numberOf (getNestedValue x f) \<noteq> None"
  shows "\<exists>kind' \<in> snd ` set (aggregationsOrEmpty (aggregations opts)).
           kind' \<notin> knownKinds
           \<and> transformData numToString (Arr arr) (Some opts)
               = Inl (Error (''Unknown aggregation: '' @ kind'))"
proof -
  let ?K = "createGroupKey numToString gb"
  let ?its = "filterItems (filterFn opts) arr"
  let ?aggs = "aggregationsOrEmpty (aggregations opts)"
  from buildGroups_total[OF keys] obtain groups where bg: "buildGroups ?K [] ?its = Inr groups"
    by blast
  from numeric obtain x where x: "x \<in> set ?its" "numberOf (getNestedValue x f) \<noteq> None" by blast
  from buildGroups_partition(3)[OF bg x(1)] obtain v where kv: "(?K x, v) \<in> set groups" by auto
  from buildGroups_partition(2)[OF bg kv] x(1) have "x \<in> set v" by simp
  from numericValues_nonempty[OF this x(2)] have ne: "numericValues v f \<noteq> []" .
  from entry have "(f, kind) \<in> set (entries ?aggs)" by (simp add: set_entries)
  from aggregatesOf_fails[OF this unknown ne] obtain e where "aggregatesOf v [] (entries ?aggs) = Inl e"
    by blast
  then have mf: "makeGroup gb ?aggs (?K x, v) = Inl e" by (simp add: makeGroup_def)
  from kv have "(?K x, v) \<in> set (entries groups)" by (simp add: set_entries)
  from mapResult_fails[where f = "makeGroup gb ?aggs", OF this mf]
  obtain e' where mr: "mapResult (makeGroup gb ?aggs) (entries groups) = Inl e'" ..
  from mapResult_Inl[OF mr] obtain k0 v0 where "makeGroup gb ?aggs (k0, v0) = Inl e'" by auto
  then have "aggregatesOf v0 [] (entries ?aggs) = Inl e'"
    by (auto simp: makeGroup_def split: sum.splits)
  from aggregatesOf_Inl[OF this] obtain f' kind' where k': "(f', kind') \<in> set ?aggs"
    "kind' \<notin> knownKinds"
    "e' = Error (''Unknown aggregation: '' @ kind')"
    by (auto simp: set_entries)
  from gb given bg mr have tr: "transformData numToString (Arr arr) (Some opts) = Inl e'"
    by (simp add: transformData_def Let_def)
  from k'(1) have "snd (f', kind') \<in> snd ` set ?aggs" by (rule imageI)
  then have "kind' \<in> snd ` set ?aggs" by simp
  with k'(2) tr[unfolded k'(3)] show ?thesis by (rule_tac x = kind' in bexI) auto
qed

theorem unknown_aggregation_throws_witness:
  "\<forall>numToString.
     transformData numToString (Arr bookings)
       (Some \<lparr>groupBy = Some (Single ''category''), aggregations = Some [(''price'', ''median'')],
               sortBy = None, filterFn = None\<rparr>)
     = Inl (Error ''Unknown aggregation: median'')"
proof
  fix numToString
  let ?opts = "\<lparr>groupBy = Some (Single ''category''), aggregations = Some [(''price'', ''median'')],
               sortBy = None, filterFn = None\<rparr>"
  have gb: "groupBy ?opts = Some (Single ''category'')" by simp
  have given: "\<not> groupByMissing (Some ?opts)" by simp
  have its: "filterItems (filterFn ?opts) bookings = bookings" by (simp add: filterItems_def)
  have ag: "aggregationsOrEmpty (aggregations ?opts) = [(''price'', ''median'')]"
    by (simp add: aggregationsOrEmpty_def)
  have "list_all (\<lambda>x. createGroupKey numToString (Single ''category'') x \<notin> set objectPrototypeKeys) bookings"
    by code_simp
  then have keys: "\<forall>x \<in> set (filterItems (filterFn ?opts) bookings).
      createGroupKey numToString (Single ''category'') x \<notin> set objectPrototypeKeys"
    unfolding its by (simp add: list_all_iff)
  have entry: "(''price'', ''median'') \<in> set (aggregationsOrEmpty (aggregations ?opts))"
    unfolding ag by simp
  have unknown: "''median'' \<notin> knownKinds" by (simp add: knownKinds_def)
  have "list_ex (\<lambda>x. numberOf (getNestedValue x ''price'') \<noteq> None) bookings" by code_simp
  then have numeric: "\<exists>x \<in> set (filterItems (filterFn ?opts) bookings).
      numberOf (getNestedValue x ''price'') \<noteq> None"
    unfolding its by (simp add: list_ex_iff)
  from unknown_aggregation_throws[OF gb given keys entry unknown numeric]
  show "transformData numToString (Arr bookings) (Some ?opts) = Inl (Error ''Unknown aggregation: median'')"
    unfolding ag by simp
qed

text \<open>
  Claim C4 as stated fails. The test for an empty array of values comes before the
  \<^verbatim>\<open>switch\<close>: no booking has a \<^verbatim>\<open>rating\<close>, so the unknown kind \<^verbatim>\<open>median\<close> for that field
  throws nothing and every group gets \<^verbatim>\<open>null\<close>; on the empty array no group is made and
  the call returns the empty result. Where the call does throw, for the field \<^verbatim>\<open>nights\<close>,
  the message names the kind and not the field.
\<close>

theorem unknown_aggregation_without_numbers:
  "\<forall>numToString.
     (case transformData numToString (Arr bookings)
             (Some \<lparr>groupBy = Some (Single ''category''), aggregations = Some [(''rating'', ''median'')],
                     sortBy = None, filterFn = None\<rparr>)
       of Inl e \<Rightarrow> None | Inr result \<Rightarrow> Some (map aggregates result))
       = Some [[(''rating'', None)], [(''rating'', None)]]
     \<and> transformData numToString (Arr [])
          (Some \<lparr>groupBy = Some (Single ''category''), aggregations = Some [(''price'', ''median'')],
                  sortBy = None, filterFn = None\<rparr>)
         = Inr []
     \<and> transformData numToString (Arr bookings)
          (Some \<lparr>groupBy = Some (Single ''category''), aggregations = Some [(''nights'', ''mode'')],
                  sortBy = None, filterFn = None\<rparr>)
         = Inl (Error ''Unknown aggregation: mode'')"
proof (intro allI conjI)
  fix numToString
  show "(case transformData numToString (Arr bookings)
             (Some \<lparr>groupBy = Some (Single ''category''), aggregations = Some [(''rating'', ''median'')],
                     sortBy = None, filterFn = None\<rparr>)
       of Inl e \<Rightarrow> None | Inr result \<Rightarrow> Some (map aggregates result))
       = Some [[(''rating'', None)], [(''rating'', None)]]"
    by code_simp
  show "transformData numToString (Arr [])
          (Some \<lparr>groupBy = Some (Single ''category''), aggregations = Some [(''price'', ''median'')],
                  sortBy = None, filterFn = None\<rparr>)
         = Inr []"
    by code_simp
  show "transformData numToString (Arr bookings)
          (Some \<lparr>groupBy = Some (Single ''category''), aggregations = Some [(''nights'', ''mode'')],
                  sortBy = None, filterFn = None\<rparr>)
         = Inl (Error ''Unknown aggregation: mode'')"
    by code_simp
qed

subsection \<open>The aggregates of a group\<close>

lemma numericValues_Nil:
  "\<forall>x \<in> set v. numberOf (getNestedValue x f) = None \<Longrightarrow> numericValues v f = []"
  by (induction v) (auto simp: numericValues_def map_filter_simps)

lemma numberOf_Some: "numberOf x = Some n \<longleftrightarrow> x = Num n"
  by (cases x) auto

lemma length_numericValues:
  "length (numericValues v f) = length (filter (\<lambda>item. \<exists>n. getNestedValue item f = Num n) v)"
proof (induction v)
  case Nil
  then show ?case by (simp add: numericValues_def map_filter_simps)
next
  case (Cons x v)
  then show ?case
    by (cases "numberOf (getNestedValue x f)")
      (auto simp: numericValues_def map_filter_simps numberOf_Some)
qed

lemma aggregate_total:
  "k \<in> knownKinds \<or> numericValues gi f = [] \<Longrightarrow> \<exists>v. aggregate gi f k = Inr v"
  by (auto simp: aggregate_def knownKinds_def Let_def)

lemma aggregatesOf_total:
  "\<forall>(f, k) \<in> set es. k \<in> knownKinds \<or> numericValues gi f = []
     \<Longrightarrow> \<exists>r. aggregatesOf gi acc es = Inr r"
proof (induction es arbitrary: acc)
  case Nil
  then show ?case by simp
next
  case (Cons a es)
  obtain f k where a: "a = (f, k)" by (cases a)
  with Cons.prems have "k \<in> knownKinds \<or> numericValues gi f = []" by simp
  from aggregate_total[OF this] obtain v where v: "aggregate gi f k = Inr v" ..
  from Cons.prems have "\<forall>(f, k) \<in> set es. k \<in> knownKinds \<or> numericValues gi f = []" by simp
  from Cons.IH[OF this, of "assign acc f v"] v a show ?case by simp
qed

lemma mapResult_total:
  "\<forall>x \<in> set xs. \<exists>y. f x = Inr y \<Longrightarrow> \<exists>ys. mapResult f xs = Inr ys"
  by (induction xs) (auto split: sum.splits)

lemma aggregate_Inr:
  assumes "aggregate gi f k = Inr v"
  shows "v = (if numericValues gi f = [] then None
              else if k = ''sum'' then Some (foldl fadd (Finite 0) (numericValues gi f))
              else if k = ''avg''
                then Some (fdiv (foldl fadd (Finite 0) (numericValues gi f))
                                (Finite (of_nat (length (numericValues gi f)))))
              else if k = ''min'' then Some (mathMin (numericValues gi f))
              else if k = ''max'' then Some (mathMax (numericValues gi f))
              else if k = ''count'' then Some (Finite (of_nat (length (numericValues gi f))))
              else None)"
    and "numericValues gi f = [] \<or> k \<in> knownKinds"
  using assms by (auto simp: aggregate_def knownKinds_def Let_def split: if_splits)

lemma transformData_returns:
  assumes gb: "groupBy opts = Some gb"
    and given: "\<not> groupByMissing (Some opts)"
    and keys: "\<forall>x \<in> set (filterItems (filterFn opts) arr).
                 createGroupKey numToString gb x \<notin> set objectPrototypeKeys"
    and harmless: "\<forall>(f, kind) \<in> set (aggregationsOrEmpty (aggregations opts)).
                 kind \<in> knownKinds
                 \<or> (\<forall>x \<in> set (filterItems (filterFn opts) arr). numberOf (getNestedValue x f) = None)"
  shows "\<exists>result. transformData numToString (Arr arr) (Some opts) = Inr result"
proof -
  let ?K = "createGroupKey numToString gb"
  let ?its = "filterItems (filterFn opts) arr"
  let ?aggs = "aggregationsOrEmpty (aggregations opts)"
  from buildGroups_total[OF keys] obtain groups where bg: "buildGroups ?K [] ?its = Inr groups"
    by blast
  have "\<exists>y. makeGroup gb ?aggs e = Inr y" if e: "e \<in> set (entries groups)" for e
  proof -
    obtain k v where kv: "e = (k, v)" by (cases e)
    with e have "(k, v) \<in> set groups" by (simp add: set_entries)
    from buildGroups_partition(2)[OF bg this] have sub: "set v \<subseteq> set ?its" by auto
    have "\<forall>(f, kind) \<in> set (entries ?aggs). kind \<in> knownKinds \<or> numericValues v f = []"
    proof (clarify)
      fix f kind
      assume "(f, kind) \<in> set (entries ?aggs)" and "numericValues v f \<noteq> []"
      then have "(f, kind) \<in> set ?aggs" by (simp add: set_entries)
      with harmless have "kind \<in> knownKinds
          \<or> (\<forall>x \<in> set ?its. numberOf (getNestedValue x f) = None)" by auto
      then show "kind \<in> knownKinds"
      proof
        assume "\<forall>x \<in> set ?its. numberOf (getNestedValue x f) = None"
        with sub have "\<forall>x \<in> set v. numberOf (getNestedValue x f) = None" by auto
        from numericValues_Nil[OF this] \<open>numericValues v f \<noteq> []\<close> show ?thesis by simp
      qed
    qed
    from aggregatesOf_total[OF this, of "[]"] kv show ?thesis
      by (auto simp: makeGroup_def)
  qed
  then have "\<forall>e \<in> set (entries groups). \<exists>y. makeGroup gb ?aggs e = Inr y" by blast
  from mapResult_total[OF this] obtain r where "mapResult (makeGroup gb ?aggs) (entries groups) = Inr r" ..
  with gb given bg show ?thesis by (simp add: transformData_def Let_def)
qed

lemma stored_aggregate:
  assumes res: "transformData numToString (Arr arr) (Some opts) = Inr result"
    and aggs: "aggregations opts = Some aggs"
    and d: "distinct (map fst aggs)"
    and entry: "(f, kind) \<in> set aggs"
    and own: "f \<noteq> ''__proto__''"
    and g: "g \<in> set result"
  shows "\<exists>val. aggregate (items g) f kind = Inr val \<and> map_of (aggregates g) f = Some val"
    and "count g = length (items g)"
proof -
  from res obtain gb where gb: "groupBy opts = Some gb"
    by (cases "groupBy opts") (auto simp: transformData_def)
  from transformData_Inr[OF res gb] g obtain k v
    where mk: "makeGroup gb (aggregationsOrEmpty (aggregations opts)) (k, v) = Inr g"
    by blast
  from aggs have ae: "aggregationsOrEmpty (aggregations opts) = aggs"
    by (simp add: aggregationsOrEmpty_def)
  note m = makeGroup_Inr[OF mk[unfolded ae]]
  from entry have e: "(f, kind) \<in> set (entries aggs)" by (simp add: set_entries)
  from aggregatesOf_entry[OF m(3) distinct_entries[OF d] e] own m(1)
  show "\<exists>val. aggregate (items g) f kind = Inr val \<and> map_of (aggregates g) f = Some val"
    by auto
  from m(1) m(2) show "count g = length (items g)" by simp
qed

text \<open>
  Claim C7, as the code has it. Let \<^verbatim>\<open>groupBy\<close> be given and let \<open>(f, kind)\<close> be an entry of
  \<^verbatim>\<open>aggregations\<close>, \<open>f\<close> not being \<^verbatim>\<open>__proto__\<close>, under which an object literal stores nothing.

  \<^item> The call returns when no group key is the name of an inherited member and every
    entry of an unknown kind is for a field at which no record has a number. So the
    records without a number raise nothing, whatever the kind.

  \<^item> When the call returns, the aggregate stored at \<open>f\<close> in a group is computed from
    \<open>values\<close>, the numbers that the members of the group have at \<open>f\<close>, in the order of the
    members: \<^verbatim>\<open>null\<close> when there is none; else the sum in double arithmetic taken from 0
    in that order, that sum divided by the number of values, \<^verbatim>\<open>Math.min\<close>, \<^verbatim>\<open>Math.max\<close>, or
    the number of values. There are as many values as members whose field resolves to a
    number, which is not the size of the group, the field \<open>count\<close> of the group.

  \<^item> When the values are integers whose magnitudes add up to less than \<open>2^53\<close>, the
    sum is their arithmetic total, and the average is the double nearest to the total
    divided by their number.

  \<^item> When no value is not-a-number, the minimum and the maximum are values of the group
    that bound all its values. When one is, the sum, the average, the minimum and the
    maximum are not-a-number.
\<close>

theorem aggregates_of_numeric_values:
  assumes gb: "groupBy opts = Some gb"
    and given: "\<not> groupByMissing (Some opts)"
    and aggs: "aggregations opts = Some aggs"
    and d: "distinct (map fst aggs)"
    and entry: "(f, kind) \<in> set aggs"
    and own: "f \<noteq> ''__proto__''"
  shows "((\<forall>x \<in> set (filterItems (filterFn opts) arr).
              createGroupKey numToString gb x \<notin> set objectPrototypeKeys)
          \<and> (\<forall>(f', kind') \<in> set aggs.
                kind' \<in> knownKinds
                \<or> (\<forall>x \<in> set (filterItems (filterFn opts) arr).
                      numberOf (getNestedValue x f') = None))
          \<longrightarrow> (\<exists>result. transformData numToString (Arr arr) (Some opts) = Inr result))
     \<and> (\<forall>result g.
          transformData numToString (Arr arr) (Some opts) = Inr result \<and> g \<in> set result \<longrightarrow>
          (let values = numericValues (items g) f;
               stored = map_of (aggregates g) f
           in stored =
                Some (if values = [] then None
                      else if kind = ''sum'' then Some (foldl fadd (Finite 0) values)
                      else if kind = ''avg''
                        then Some (fdiv (foldl fadd (Finite 0) values)
                                        (Finite (of_nat (length values))))
                      else if kind = ''min'' then Some (mathMin values)
                      else if kind = ''max'' then Some (mathMax values)
                      else if kind = ''count'' then Some (Finite (of_nat (length values)))
                      else None)
              \<and> (values = [] \<or> kind \<in> knownKinds)
              \<and> length values
                   = length (filter (\<lambda>item. \<exists>n. getNestedValue item f = Num n) (items g))
              \<and> count g = length (items g)
              \<and> (\<forall>ns. values = map (\<lambda>n. Finite (of_int n)) ns \<and> ns \<noteq> []
                        \<and> sum_list (map abs ns) < 2 ^ 53 \<longrightarrow>
                      (kind = ''sum'' \<longrightarrow> stored = Some (Some (Finite (of_int (sum_list ns)))))
                      \<and> (kind = ''avg'' \<longrightarrow>
                            stored = Some (Some (roundDouble
                                       (of_int (sum_list ns) / of_nat (length ns))))))
              \<and> (values \<noteq> [] \<and> DNaN \<notin> set values \<longrightarrow>
                      (kind = ''min'' \<longrightarrow>
                         (\<exists>m \<in> set values. stored = Some (Some m)
                                \<and> (\<forall>v \<in> set values. numLeq m v)))
                      \<and> (kind = ''max'' \<longrightarrow>
                            (\<exists>m \<in> set values. stored = Some (Some m)
                                \<and> (\<forall>v \<in> set values. numLeq v m))))
              \<and> (DNaN \<in> set values \<and> kind \<in> {''sum'', ''avg'', ''min'', ''max''} \<longrightarrow>
                      stored = Some (Some DNaN))))"
proof (intro conjI impI allI)
  assume "(\<forall>x \<in> set (filterItems (filterFn opts) arr).
              createGroupKey numToString gb x \<notin> set objectPrototypeKeys)
          \<and> (\<forall>(f', kind') \<in> set aggs.
                kind' \<in> knownKinds
                \<or> (\<forall>x \<in> set (filterItems (filterFn opts) arr).
                      numberOf (getNestedValue x f') = None))"
  with aggs have keys: "\<forall>x \<in> set (filterItems (filterFn opts) arr).
              createGroupKey numToString gb x \<notin> set objectPrototypeKeys"
    and harmless: "\<forall>(f', kind') \<in> set (aggregationsOrEmpty (aggregations opts)).
                kind' \<in> knownKinds
                \<or> (\<forall>x \<in> set (filterItems (filterFn opts) arr).
                      numberOf (getNestedValue x f') = None)"
    by (simp_all add: aggregationsOrEmpty_def)
  from transformData_returns[OF gb given keys harmless]
  show "\<exists>result. transformData numToString (Arr arr) (Some opts) = Inr result" .
next
  fix result g
  assume "transformData numToString (Arr arr) (Some opts) = Inr result \<and> g \<in> set result"
  then have res: "transformData numToString (Arr arr) (Some opts) = Inr result"
    and g: "g \<in> set result" by simp_all
  define vs where "vs = numericValues (items g) f"
  define stored where "stored = map_of (aggregates g) f"
  define total where "total = foldl fadd (Finite 0) vs"
  from stored_aggregate[OF res aggs d entry own g]
  obtain val where val: "aggregate (items g) f kind = Inr val" "stored = Some val"
    and cnt: "count g = length (items g)"
    by (auto simp: stored_def)
  note a = aggregate_Inr[OF val(1), folded vs_def total_def]
  have c1: "stored =
                Some (if vs = [] then None
                      else if kind = ''sum'' then Some total
                      else if kind = ''avg''
                        then Some (fdiv total (Finite (of_nat (length vs))))
                      else if kind = ''min'' then Some (mathMin vs)
                      else if kind = ''max'' then Some (mathMax vs)
                      else if kind = ''count'' then Some (Finite (of_nat (length vs)))
                      else None)"
    using a(1) val(2) by simp
  have c2: "vs = [] \<or> kind \<in> knownKinds" by (rule a(2))
  have c3: "length vs
      = length (filter (\<lambda>item. \<exists>n. getNestedValue item f = Num n) (items g))"
    unfolding vs_def by (rule length_numericValues)
  have c5: "(kind = ''sum'' \<longrightarrow> stored = Some (Some (Finite (of_int (sum_list ns)))))
          \<and> (kind = ''avg'' \<longrightarrow>
                stored = Some (Some (roundDouble (of_int (sum_list ns) / of_nat (length ns)))))"
    if ns: "vs = map (\<lambda>n. Finite (of_int n)) ns \<and> ns \<noteq> [] \<and> sum_list (map abs ns) < 2 ^ 53"
    for ns
  proof -
    from ns have t: "total = Finite (of_int (sum_list ns))"
      unfolding total_def by (simp add: sum_of_integers)
    from ns have ne: "vs \<noteq> []" and len: "length vs = length ns" and pos: "0 < length ns"
      by simp_all
    from fdiv_of_int[OF pos, of "sum_list ns"]
    have "fdiv total (Finite (of_nat (length vs)))
        = roundDouble (of_int (sum_list ns) / of_nat (length ns))"
      unfolding t len .
    with c1 ne t show ?thesis by simp
  qed
  have c6: "(kind = ''min'' \<longrightarrow>
               (\<exists>m \<in> set vs. stored = Some (Some m) \<and> (\<forall>v \<in> set vs. numLeq m v)))
          \<and> (kind = ''max'' \<longrightarrow>
               (\<exists>m \<in> set vs. stored = Some (Some m) \<and> (\<forall>v \<in> set vs. numLeq v m)))"
    if v: "vs \<noteq> [] \<and> DNaN \<notin> set vs"
  proof -
    from v have ne: "vs \<noteq> []" and nn: "DNaN \<notin> set vs" by simp_all
    note mn = mathMin_least[OF ne nn] and mx = mathMax_greatest[OF ne nn]
    from c1 ne have "kind = ''min'' \<longrightarrow> stored = Some (Some (mathMin vs))"
      and "kind = ''max'' \<longrightarrow> stored = Some (Some (mathMax vs))" by simp_all
    with mn mx show ?thesis by blast
  qed
  have c7: "stored = Some (Some DNaN)"
    if v: "DNaN \<in> set vs \<and> kind \<in> {''sum'', ''avg'', ''min'', ''max''}"
  proof -
    from v have nan: "DNaN \<in> set vs" and ne: "vs \<noteq> []" by auto
    from sum_with_DNaN[OF nan] have t: "total = DNaN" by (simp add: total_def)
    have "fdiv DNaN (Finite (of_nat (length vs))) = DNaN" by (simp add: fdiv_def)
    moreover from nan have "mathMin vs = DNaN" and "mathMax vs = DNaN"
      by (simp_all add: mathMin_def mathMax_def)
    ultimately show ?thesis using c1 ne t v by auto
  qed
  from c1 c2 c3 cnt c5 c6 c7
  show "let values = numericValues (items g) f;
            stored = map_of (aggregates g) f
        in stored =
                Some (if values = [] then None
                      else if kind = ''sum'' then Some (foldl fadd (Finite 0) values)
                      else if kind = ''avg''
                        then Some (fdiv (foldl fadd (Finite 0) values)
                                        (Finite (of_nat (length values))))
                      else if kind = ''min'' then Some (mathMin values)
                      else if kind = ''max'' then Some (mathMax values)
                      else if kind = ''count'' then Some (Finite (of_nat (length values)))
                      else None)
              \<and> (values = [] \<or> kind \<in> knownKinds)
              \<and> length values
                   = length (filter (\<lambda>item. \<exists>n. getNestedValue item f = Num n) (items g))
              \<and> count g = length (items g)
              \<and> (\<forall>ns. values = map (\<lambda>n. Finite (of_int n)) ns \<and> ns \<noteq> []
                        \<and> sum_list (map abs ns) < 2 ^ 53 \<longrightarrow>
                      (kind = ''sum'' \<longrightarrow> stored = Some (Some (Finite (of_int (sum_list ns)))))
                      \<and> (kind = ''avg'' \<longrightarrow>
                            stored = Some (Some (roundDouble
                                       (of_int (sum_list ns) / of_nat (length ns))))))
              \<and> (values \<noteq> [] \<and> DNaN \<notin> set values \<longrightarrow>
                      (kind = ''min'' \<longrightarrow>
                         (\<exists>m \<in> set values. stored = Some (Some m)
                                \<and> (\<forall>v \<in> set values. numLeq m v)))
                      \<and> (kind = ''max'' \<longrightarrow>
                            (\<exists>m \<in> set values. stored = Some (Some m)
                                \<and> (\<forall>v \<in> set values. numLeq v m))))
              \<and> (DNaN \<in> set values \<and> kind \<in> {''sum'', ''avg'', ''min'', ''max''} \<longrightarrow>
                      stored = Some (Some DNaN))"
    unfolding Let_def vs_def[symmetric] stored_def[symmetric] total_def[symmetric]
    by blast
qed

theorem aggregates_of_numeric_values_witness:
  "\<forall>numToString.
     (\<exists>result. transformData numToString (Arr bookings) (Some test2Options) = Inr result)
     \<and> map_of (aggregates (hd (projr (transformData numToString (Arr bookings) (Some test2Options)))))
         ''price'' = Some (Some (Finite (5864062014805333 / 35184372088832)))
     \<and> map_of (aggregates (hd (projr (transformData numToString (Arr bookings) (Some test2Options)))))
         ''nights'' = Some (Some (Finite 3))
     \<and> length (numericValues
                 (items (hd (projr (transformData numToString (Arr bookings) (Some test2Options)))))
                 ''nights'') = 2
     \<and> count (hd (projr (transformData numToString (Arr bookings) (Some test2Options)))) = 3
     \<and> map_of (aggregates (last (projr (transformData numToString (Arr bookings) (Some test1Options)))))
         ''price'' = Some (Some (Finite 400))
     \<and> map_of (aggregates (hd (projr (transformData numToString (Arr bookings) (Some test1Options)))))
         ''nights'' = Some None"
proof (intro allI)
  fix numToString
  let ?r1 = "projr (transformData numToString (Arr bookings) (Some test1Options))"
  let ?r2 = "projr (transformData numToString (Arr bookings) (Some test2Options))"
  let ?a1 = "[(''price'', ''sum''), (''nights'', ''avg'')]"
  let ?a2 = "[(''price'', ''avg''), (''nights'', ''max'')]"
  have gb1: "groupBy test1Options = Some (Single ''category'')" by (simp add: test1Options_def)
  have gb2: "groupBy test2Options = Some (Single ''location.city'')" by (simp add: test2Options_def)
  have given1: "\<not> groupByMissing (Some test1Options)" by (simp add: test1Options_def)
  have given2: "\<not> groupByMissing (Some test2Options)" by (simp add: test2Options_def)
  have aggs1: "aggregations test1Options = Some ?a1" by (simp add: test1Options_def)
  have aggs2: "aggregations test2Options = Some ?a2" by (simp add: test2Options_def)
  have d1: "distinct (map fst ?a1)" by simp
  have d2: "distinct (map fst ?a2)" by simp
  have p: "''price'' \<noteq> ''__proto__''" and n: "''nights'' \<noteq> ''__proto__''" by simp_all
  have e1p: "(''price'', ''sum'') \<in> set ?a1" and e1n: "(''nights'', ''avg'') \<in> set ?a1" by simp_all
  have e2p: "(''price'', ''avg'') \<in> set ?a2" and e2n: "(''nights'', ''max'') \<in> set ?a2" by simp_all
  note t1p = aggregates_of_numeric_values[OF gb1 given1 aggs1 d1 e1p p,
      where arr = bookings and numToString = numToString]
  note t1n = aggregates_of_numeric_values[OF gb1 given1 aggs1 d1 e1n n,
      where arr = bookings and numToString = numToString]
  note t2p = aggregates_of_numeric_values[OF gb2 given2 aggs2 d2 e2p p,
      where arr = bookings and numToString = numToString]
  note t2n = aggregates_of_numeric_values[OF gb2 given2 aggs2 d2 e2n n,
      where arr = bookings and numToString = numToString]
  have its: "filterItems (filterFn test2Options) bookings = bookings"
    by (simp add: filterItems_def test2Options_def)
  have "list_all (\<lambda>x. createGroupKey numToString (Single ''location.city'') x
                         \<notin> set objectPrototypeKeys) bookings"
    by code_simp
  then have keys: "\<forall>x \<in> set (filterItems (filterFn test2Options) bookings).
      createGroupKey numToString (Single ''location.city'') x \<notin> set objectPrototypeKeys"
    unfolding its by (simp add: list_all_iff)
  have harmless: "\<forall>(f', kind') \<in> set ?a2.
      kind' \<in> knownKinds
      \<or> (\<forall>x \<in> set (filterItems (filterFn test2Options) bookings).
            numberOf (getNestedValue x f') = None)"
    by (simp add: knownKinds_def)
  from t2p[THEN conjunct1, THEN mp, OF conjI[OF keys harmless]]
  have returns: "\<exists>result. transformData numToString (Arr bookings) (Some test2Options) = Inr result" .
  have res1: "transformData numToString (Arr bookings) (Some test1Options) = Inr ?r1" by code_simp
  have res2: "transformData numToString (Arr bookings) (Some test2Options) = Inr ?r2" by code_simp
  have "?r1 \<noteq> []" by code_simp
  then have g1l: "last ?r1 \<in> set ?r1" and g1h: "hd ?r1 \<in> set ?r1" by simp_all
  have "?r2 \<noteq> []" by code_simp
  then have g2: "hd ?r2 \<in> set ?r2" by simp
  note v1p = t1p[THEN conjunct2, rule_format, OF conjI[OF res1 g1l], unfolded Let_def]
  note v1n = t1n[THEN conjunct2, rule_format, OF conjI[OF res1 g1h], unfolded Let_def]
  note v2p = t2p[THEN conjunct2, rule_format, OF conjI[OF res2 g2], unfolded Let_def]
  note v2n = t2n[THEN conjunct2, rule_format, OF conjI[OF res2 g2], unfolded Let_def]

  have ns2: "numericValues (items (hd ?r2)) ''price'' = map (\<lambda>n. Finite (of_int n)) [120, 80, 300]"
    by code_simp
  have small2: "[120, 80, 300 :: int] \<noteq> [] \<and> sum_list (map abs [120, 80, 300 :: int]) < 2 ^ 53"
    by simp
  from v2p have "\<forall>ns. numericValues (items (hd ?r2)) ''price'' = map (\<lambda>n. Finite (of_int n)) ns
        \<and> ns \<noteq> [] \<and> sum_list (map abs ns) < 2 ^ 53 \<longrightarrow>
      (''avg'' = ''sum'' \<longrightarrow> map_of (aggregates (hd ?r2)) ''price''
          = Some (Some (Finite (of_int (sum_list ns)))))
      \<and> (''avg'' = ''avg'' \<longrightarrow> map_of (aggregates (hd ?r2)) ''price''
          = Some (Some (roundDouble (of_int (sum_list ns) / of_nat (length ns)))))"
    by (elim conjE)
  from this[rule_format, OF conjI[OF ns2 small2]]
  have "map_of (aggregates (hd ?r2)) ''price''
      = Some (Some (roundDouble (of_int (sum_list [120, 80, 300]) / of_nat (length [120, 80, 300 :: int]))))"
    by simp
  also have "roundDouble (of_int (sum_list [120, 80, 300]) / of_nat (length [120, 80, 300 :: int]))
      = Finite (5864062014805333 / 35184372088832)"
    by code_simp
  finally have a: "map_of (aggregates (hd ?r2)) ''price''
      = Some (Some (Finite (5864062014805333 / 35184372088832)))" .

  have vs: "numericValues (items (hd ?r2)) ''nights'' = [Finite 2, Finite 3]" by code_simp
  from v2n have "numericValues (items (hd ?r2)) ''nights'' \<noteq> []
        \<and> DNaN \<notin> set (numericValues (items (hd ?r2)) ''nights'') \<longrightarrow>
      (''max'' = ''min'' \<longrightarrow>
         (\<exists>m \<in> set (numericValues (items (hd ?r2)) ''nights'').
            map_of (aggregates (hd ?r2)) ''nights'' = Some (Some m)
            \<and> (\<forall>v \<in> set (numericValues (items (hd ?r2)) ''nights''). numLeq m v)))
      \<and> (''max'' = ''max'' \<longrightarrow>
         (\<exists>m \<in> set (numericValues (items (hd ?r2)) ''nights'').
            map_of (aggregates (hd ?r2)) ''nights'' = Some (Some m)
            \<and> (\<forall>v \<in> set (numericValues (items (hd ?r2)) ''nights''). numLeq v m)))"
    by (elim conjE)
  then have "\<exists>m \<in> set [Finite 2, Finite 3].
            map_of (aggregates (hd ?r2)) ''nights'' = Some (Some m)
            \<and> (\<forall>v \<in> set [Finite 2, Finite 3]. numLeq v m)"
    unfolding vs by simp
  then have b: "map_of (aggregates (hd ?r2)) ''nights'' = Some (Some (Finite 3))"
    by (auto simp: numLeq_def numLess_def)
  from vs have c: "length (numericValues (items (hd ?r2)) ''nights'') = 2" by simp
  from v2n have "count (hd ?r2) = length (items (hd ?r2))" by (elim conjE)
  also have "length (items (hd ?r2)) = 3" by code_simp
  finally have d: "count (hd ?r2) = 3" .

  have ns1: "numericValues (items (last ?r1)) ''price'' = map (\<lambda>n. Finite (of_int n)) [120, 80, 200]"
    by code_simp
  have small1: "[120, 80, 200 :: int] \<noteq> [] \<and> sum_list (map abs [120, 80, 200 :: int]) < 2 ^ 53"
    by simp
  from v1p have "\<forall>ns. numericValues (items (last ?r1)) ''price'' = map (\<lambda>n. Finite (of_int n)) ns
        \<and> ns \<noteq> [] \<and> sum_list (map abs ns) < 2 ^ 53 \<longrightarrow>
      (''sum'' = ''sum'' \<longrightarrow> map_of (aggregates (last ?r1)) ''price''
          = Some (Some (Finite (of_int (sum_list ns)))))
      \<and> (''sum'' = ''avg'' \<longrightarrow> map_of (aggregates (last ?r1)) ''price''
          = Some (Some (roundDouble (of_int (sum_list ns) / of_nat (length ns)))))"
    by (elim conjE)
  from this[rule_format, OF conjI[OF ns1 small1]]
  have e: "map_of (aggregates (last ?r1)) ''price'' = Some (Some (Finite 400))"
    by simp

  have none: "numericValues (items (hd ?r1)) ''nights'' = []" by code_simp
  from v1n have "map_of (aggregates (hd ?r1)) ''nights''
      = Some (if numericValues (items (hd ?r1)) ''nights'' = [] then None
              else if ''avg'' = ''sum''
                then Some (foldl fadd (Finite 0) (numericValues (items (hd ?r1)) ''nights''))
              else if ''avg'' = ''avg''
                then Some (fdiv (foldl fadd (Finite 0) (numericValues (items (hd ?r1)) ''nights''))
                     (Finite (of_nat (length (numericValues (items (hd ?r1)) ''nights'')))))
              else if ''avg'' = ''min'' then Some (mathMin (numericValues (items (hd ?r1)) ''nights''))
              else if ''avg'' = ''max'' then Some (mathMax (numericValues (items (hd ?r1)) ''nights''))
              else if ''avg'' = ''count''
                then Some (Finite (of_nat (length (numericValues (items (hd ?r1)) ''nights''))))
              else None)"
    by (elim conjE)
  then have f: "map_of (aggregates (hd ?r1)) ''nights'' = Some None"
    unfolding none by simp

  from returns a b c d e f
  show "(\<exists>result. transformData numToString (Arr bookings) (Some test2Options) = Inr result)
     \<and> map_of (aggregates (hd ?r2)) ''price'' = Some (Some (Finite (5864062014805333 / 35184372088832)))
     \<and> map_of (aggregates (hd ?r2)) ''nights'' = Some (Some (Finite 3))
     \<and> length (numericValues (items (hd ?r2)) ''nights'') = 2
     \<and> count (hd ?r2) = 3
     \<and> map_of (aggregates (last ?r1)) ''price'' = Some (Some (Finite 400))
     \<and> map_of (aggregates (hd ?r1)) ''nights'' = Some None"
    by (intro conjI)
qed

text \<open>
  Claim C7 as stated fails: the sum is not the arithmetic total, and the minimum does not
  bound the values. The three prices \<open>2^53\<close>, 1 and 1 have the total \<open>2^53 + 2\<close>, which is a
  double; the source adds them from the left and gets \<open>2^53\<close>, and gets the total when the
  same records come in the other order. On the second test call the average of 120, 80
  and 300 is the double nearest to \<open>500 / 3\<close>, which is not \<open>500 / 3\<close>. A price that is
  not-a-number is of type number: it is counted, and it makes the minimum not-a-number.
\<close>

theorem sum_is_not_the_arithmetic_total:
  "\<forall>numToString.
     (case transformData numToString
             (Arr [Obj [(''category'', Str ''a''), (''price'', Num (Finite 9007199254740992))],
                   Obj [(''category'', Str ''a''), (''price'', Num (Finite 1))],
                   Obj [(''category'', Str ''a''), (''price'', Num (Finite 1))]])
             (Some \<lparr>groupBy = Some (Single ''category''), aggregations = Some [(''price'', ''sum'')],
                     sortBy = None, filterFn = None\<rparr>)
       of Inl e \<Rightarrow> None | Inr result \<Rightarrow> Some (map aggregates result))
       = Some [[(''price'', Some (Finite 9007199254740992))]]
     \<and> (case transformData numToString
             (Arr [Obj [(''category'', Str ''a''), (''price'', Num (Finite 1))],
                   Obj [(''category'', Str ''a''), (''price'', Num (Finite 1))],
                   Obj [(''category'', Str ''a''), (''price'', Num (Finite 9007199254740992))]])
             (Some \<lparr>groupBy = Some (Single ''category''), aggregations = Some [(''price'', ''sum'')],
                     sortBy = None, filterFn = None\<rparr>)
       of Inl e \<Rightarrow> None | Inr result \<Rightarrow> Some (map aggregates result))
       = Some [[(''price'', Some (Finite 9007199254740994))]]
     \<and> sum_list [9007199254740992, 1, 1] = (9007199254740994 :: rat)
     \<and> roundDouble 9007199254740994 = Finite 9007199254740994
     \<and> map_of (aggregates (hd (projr (transformData numToString (Arr bookings) (Some test2Options)))))
         ''price'' = Some (Some (Finite (5864062014805333 / 35184372088832)))
     \<and> (5864062014805333 / 35184372088832 :: rat) \<noteq> sum_list [120, 80, 300] / 3
     \<and> (case transformData numToString
             (Arr [Obj [(''category'', Str ''a''), (''price'', Num (Finite 1))],
                   Obj [(''category'', Str ''a''), (''price'', Num DNaN)]])
             (Some \<lparr>groupBy = Some (Single ''category''),
                     aggregations = Some [(''price'', ''min'')],
                     sortBy = None, filterFn = None\<rparr>)
       of Inl e \<Rightarrow> None | Inr result \<Rightarrow> Some (map aggregates result))
       = Some [[(''price'', Some DNaN)]]
     \<and> (case transformData numToString
             (Arr [Obj [(''category'', Str ''a''), (''price'', Num (Finite 1))],
                   Obj [(''category'', Str ''a''), (''price'', Num DNaN)]])
             (Some \<lparr>groupBy = Some (Single ''category''),
                     aggregations = Some [(''price'', ''count'')],
                     sortBy = None, filterFn = None\<rparr>)
       of Inl e \<Rightarrow> None | Inr result \<Rightarrow> Some (map aggregates result))
       = Some [[(''price'', Some (Finite 2))]]"
proof (intro allI conjI)
  fix numToString
  show "(case transformData numToString
             (Arr [Obj [(''category'', Str ''a''), (''price'', Num (Finite 9007199254740992))],
                   Obj [(''category'', Str ''a''), (''price'', Num (Finite 1))],
                   Obj [(''category'', Str ''a''), (''price'', Num (Finite 1))]])
             (Some \<lparr>groupBy = Some (Single ''category''), aggregations = Some [(''price'', ''sum'')],
                     sortBy = None, filterFn = None\<rparr>)
       of Inl e \<Rightarrow> None | Inr result \<Rightarrow> Some (map aggregates result))
       = Some [[(''price'', Some (Finite 9007199254740992))]]"
    by code_simp
  show "(case transformData numToString
             (Arr [Obj [(''category'', Str ''a''), (''price'', Num (Finite 1))],
                   Obj [(''category'', Str ''a''), (''price'', Num (Finite 1))],
                   Obj [(''category'', Str ''a''), (''price'', Num (Finite 9007199254740992))]])
             (Some \<lparr>groupBy = Some (Single ''category''), aggregations = Some [(''price'', ''sum'')],
                     sortBy = None, filterFn = None\<rparr>)
       of Inl e \<Rightarrow> None | Inr result \<Rightarrow> Some (map aggregates result))
       = Some [[(''price'', Some (Finite 9007199254740994))]]"
    by code_simp
  show "sum_list [9007199254740992, 1, 1] = (9007199254740994 :: rat)" by simp
  show "roundDouble 9007199254740994 = Finite 9007199254740994" by code_simp
  show "map_of (aggregates (hd (projr (transformData numToString (Arr bookings) (Some test2Options)))))
         ''price'' = Some (Some (Finite (5864062014805333 / 35184372088832)))"
    by code_simp
  show "(5864062014805333 / 35184372088832 :: rat) \<noteq> sum_list [120, 80, 300] / 3" by simp
  show "(case transformData numToString
             (Arr [Obj [(''category'', Str ''a''), (''price'', Num (Finite 1))],
                   Obj [(''category'', Str ''a''), (''price'', Num DNaN)]])
             (Some \<lparr>groupBy = Some (Single ''category''),
                     aggregations = Some [(''price'', ''min'')],
                     sortBy = None, filterFn = None\<rparr>)
       of Inl e \<Rightarrow> None | Inr result \<Rightarrow> Some (map aggregates result))
       = Some [[(''price'', Some DNaN)]]"
    by code_simp
  show "(case transformData numToString
             (Arr [Obj [(''category'', Str ''a''), (''price'', Num (Finite 1))],
                   Obj [(''category'', Str ''a''), (''price'', Num DNaN)]])
             (Some \<lparr>groupBy = Some (Single ''category''),
                     aggregations = Some [(''price'', ''count'')],
                     sortBy = None, filterFn = None\<rparr>)
       of Inl e \<Rightarrow> None | Inr result \<Rightarrow> Some (map aggregates result))
       = Some [[(''price'', Some (Finite 2))]]"
    by code_simp
qed

end
